theory Spec2Isabelle
  imports Complex_Main "HOL-Library.Word"
begin

text \<open>
  A model of the search and retrieval core of the Unity documentation server: the query
  sanitizer and the search of \<^verbatim>\<open>search/index.ts\<close>, the table of documents of
  \<^verbatim>\<open>database/schema.ts\<close>, the pagination and the section extraction of \<^verbatim>\<open>server.ts\<close>,
  and the indexing script \<^verbatim>\<open>scripts/index-docs.ts\<close>. The definitions come first, the
  properties after them.
\<close>


section \<open>JavaScript strings\<close>

text \<open>
  A JavaScript string is a sequence of UTF-16 code units, and a regular expression
  without the \<^verbatim>\<open>u\<close> flag matches one code unit at a time. \<open>length\<close>,
  \<open>substring\<close>, \<open>trim\<close> and \<open>replace\<close> all count code units.
\<close>

type_synonym jschar = "16 word"
type_synonym jsstring = "jschar list"

definition js :: "string \<Rightarrow> jsstring" where
  \<comment> \<open>an ASCII literal of the source as code units\<close>
  "js s = map of_char s"

definition SP :: jschar where
  "SP = 0x20"

definition isWhiteSpace :: "jschar \<Rightarrow> bool" where
  \<comment> \<open>the class \<^verbatim>\<open>\s\<close> of ECMAScript, which is also what \<^verbatim>\<open>trim()\<close> removes:
      WhiteSpace and LineTerminator\<close>
  "isWhiteSpace c \<longleftrightarrow>
     c = 0x0009 \<or> c = 0x000A \<or> c = 0x000B \<or> c = 0x000C \<or> c = 0x000D \<or> c = 0x0020 \<or>
     c = 0x00A0 \<or> c = 0x1680 \<or> (0x2000 \<le> c \<and> c \<le> 0x200A) \<or>
     c = 0x2028 \<or> c = 0x2029 \<or> c = 0x202F \<or> c = 0x205F \<or> c = 0x3000 \<or> c = 0xFEFF"

definition isAlnum :: "jschar \<Rightarrow> bool" where
  \<comment> \<open>the ranges \<^verbatim>\<open>a-zA-Z0-9\<close> of a character class\<close>
  "isAlnum c \<longleftrightarrow>
     (0x61 \<le> c \<and> c \<le> 0x7A) \<or> (0x41 \<le> c \<and> c \<le> 0x5A) \<or> (0x30 \<le> c \<and> c \<le> 0x39)"

definition trimStart :: "jsstring \<Rightarrow> jsstring" where
  "trimStart s = dropWhile isWhiteSpace s"

fun trimEnd :: "jsstring \<Rightarrow> jsstring" where
  "trimEnd [] = []"
| "trimEnd (c # cs) =
     (case trimEnd cs of
        [] \<Rightarrow> (if isWhiteSpace c then [] else [c])
      | d # ds \<Rightarrow> c # d # ds)"

definition trim :: "jsstring \<Rightarrow> jsstring" where
  \<comment> \<open>\<^verbatim>\<open>String.prototype.trim\<close>\<close>
  "trim s = trimEnd (trimStart s)"

definition removeAll :: "jschar list \<Rightarrow> jsstring \<Rightarrow> jsstring" where
  \<comment> \<open>\<^verbatim>\<open>s.replace(/[cls]/g, '')\<close> for a class of literal characters\<close>
  "removeAll cls s = filter (\<lambda>c. c \<notin> set cls) s"

function collapseWhiteSpace :: "jsstring \<Rightarrow> jsstring" where
  \<comment> \<open>\<^verbatim>\<open>s.replace(/\s+/g, ' ')\<close>: every maximal run of white space becomes one space\<close>
  "collapseWhiteSpace [] = []"
| "collapseWhiteSpace (c # cs) =
     (if isWhiteSpace c then SP # collapseWhiteSpace (dropWhile isWhiteSpace cs)
      else c # collapseWhiteSpace cs)"
  by pat_completeness auto
termination
  by (relation "measure length") (auto simp: less_Suc_eq_le length_dropWhile_le)

section \<open>Query Sanitizer (search/index.ts, sanitizeSearchQuery)\<close>

definition inSafeClass :: "jschar \<Rightarrow> bool" where
  \<comment> \<open>the complement of the class \<^verbatim>\<open>[^a-zA-Z0-9\s_-]\<close>\<close>
  "inSafeClass c \<longleftrightarrow> isAlnum c \<or> isWhiteSpace c \<or> c = of_char CHR ''_'' \<or> c = of_char CHR ''-''"

definition replaceUnsafe :: "jsstring \<Rightarrow> jsstring" where
  \<comment> \<open>\<^verbatim>\<open>s.replace(/[^a-zA-Z0-9\s_-]/g, ' ')\<close>\<close>
  "replaceUnsafe s = map (\<lambda>c. if inSafeClass c then c else SP) s"

definition sanitizeSearchQuery :: "jsstring \<Rightarrow> jsstring" where
  "sanitizeSearchQuery query =
     trim (collapseWhiteSpace (replaceUnsafe
       (removeAll (js ''[]'') (removeAll (js ''{}'') (removeAll (js ''?'')
         (removeAll (js ''*'') (removeAll (js ''()'') (removeAll (js ''.'') query))))))))"

definition forbiddenChars :: "jschar list" where
  \<comment> \<open>the characters . ( ) * ? { } [ ]\<close>
  "forbiddenChars = js ''.()*?{}[]''"


section \<open>Document Store (database/schema.ts, database/migration.ts)\<close>

text \<open>
  A row of the table \<^verbatim>\<open>documents\<close> as it stands after both migrations: the columns
  of \<^verbatim>\<open>CREATE_TABLES_SQL\<close> and the two nullable columns added by \<^verbatim>\<open>migrateToV2\<close>.
  The time stamps \<^verbatim>\<open>created_at\<close> and \<^verbatim>\<open>updated_at\<close> are left out. The table is the
  list of its rows in insertion order.
\<close>

record document_row =
  doc_id :: jsstring
  unity_version :: jsstring
  doc_type :: jsstring
  title :: jsstring
  file_path :: jsstring
  url :: "jsstring option"
  content :: jsstring
  html :: jsstring
  package_name :: "jsstring option"
  package_version :: "jsstring option"

type_synonym store = "document_row list"

datatype sqlite_error = ConstraintCheck | ConstraintPrimaryKey | SqlLogicError

definition type_check :: "jsstring \<Rightarrow> bool" where
  \<comment> \<open>\<^verbatim>\<open>CHECK (type IN ('manual', 'script-reference'))\<close>; \<^verbatim>\<open>migrateToV2\<close> adds two columns
      and an index and leaves this constraint as it is\<close>
  "type_check t \<longleftrightarrow> t = js ''manual'' \<or> t = js ''script-reference''"

definition closed_types :: "jsstring set" where
  \<comment> \<open>the closed set of the data model\<close>
  "closed_types = {js ''manual'', js ''script-reference'', js ''package-docs''}"

definition insert_document :: "store \<Rightarrow> document_row \<Rightarrow> sqlite_error + store" where
  \<comment> \<open>\<^verbatim>\<open>INSERT INTO documents (...) VALUES (...)\<close>\<close>
  "insert_document s d =
     (if \<not> type_check (doc_type d) then Inl ConstraintCheck
      else if doc_id d \<in> set (map doc_id s) then Inl ConstraintPrimaryKey
      else Inr (s @ [d]))"

definition insert_or_replace_document :: "store \<Rightarrow> document_row \<Rightarrow> sqlite_error + store" where
  \<comment> \<open>\<^verbatim>\<open>INSERT OR REPLACE INTO documents\<close>: a row with the same primary key is deleted
      first; a CHECK violation still aborts the statement\<close>
  "insert_or_replace_document s d =
     (if \<not> type_check (doc_type d) then Inl ConstraintCheck
      else Inr (filter (\<lambda>x. doc_id x \<noteq> doc_id d) s @ [d]))"

definition update_documents ::
  "store \<Rightarrow> (document_row \<Rightarrow> bool) \<Rightarrow> (document_row \<Rightarrow> document_row) \<Rightarrow> sqlite_error + store" where
  \<comment> \<open>\<^verbatim>\<open>UPDATE documents SET ... WHERE ...\<close>: the rows selected by \<open>P\<close> are rewritten by
      \<open>f\<close>; a violated constraint aborts the whole statement\<close>
  "update_documents s P f =
     (let s' = map (\<lambda>d. if P d then f d else d) s
      in if list_ex (\<lambda>d. P d \<and> \<not> type_check (doc_type (f d))) s then Inl ConstraintCheck
         else if \<not> distinct (map doc_id s') then Inl ConstraintPrimaryKey
         else Inr s')"

definition delete_version :: "store \<Rightarrow> jsstring \<Rightarrow> store" where
  \<comment> \<open>\<^verbatim>\<open>DELETE FROM documents WHERE unity_version = ?\<close>\<close>
  "delete_version s v = filter (\<lambda>d. unity_version d \<noteq> v) s"

section \<open>Search Engine (search/index.ts, DocumentSearch.search)\<close>

text \<open>
  The full-text engine is a parameter. Given the MATCH expression it either rejects it
  (a syntax error of the engine, \<open>None\<close>) or tells for every row whether it matches and,
  if so, its native rank and its snippet.
\<close>

type_synonym fts5 = "jsstring \<Rightarrow> (document_row \<Rightarrow> (real \<times> jsstring) option) option"

record SearchOptions =
  opt_query :: jsstring
  opt_limit :: "int option"
  opt_offset :: "int option"
  opt_type :: "jsstring option"
  opt_version :: "jsstring option"
  opt_packageName :: "jsstring option"
  opt_packageVersion :: "jsstring option"

record SearchResult =
  res_id :: jsstring
  res_title :: jsstring
  res_type :: jsstring
  res_filePath :: jsstring
  res_url :: "jsstring option"
  res_packageName :: "jsstring option"
  res_packageVersion :: "jsstring option"
  snippet :: jsstring
  score :: real

text \<open>The statement that \<open>search\<close> assembles: the SQL text with its optional predicates
  and the bound parameters.\<close>

record search_query =
  q_match :: jsstring
  q_version :: jsstring
  q_type :: "jsstring option"
  q_package_name :: "jsstring option"
  q_package_version :: "jsstring option"
  q_limit :: int
  q_offset :: int

definition selected :: "search_query \<Rightarrow> document_row \<Rightarrow> bool" where
  \<comment> \<open>the predicates of the WHERE clause besides MATCH\<close>
  "selected q d \<longleftrightarrow>
     unity_version d = q_version q \<and>
     (case q_type q of None \<Rightarrow> True | Some t \<Rightarrow> doc_type d = t) \<and>
     (case q_package_name q of None \<Rightarrow> True | Some n \<Rightarrow> package_name d = Some n) \<and>
     (case q_package_version q of None \<Rightarrow> True | Some v \<Rightarrow> package_version d = Some v)"

definition sql_limit :: "int \<Rightarrow> int \<Rightarrow> 'a list \<Rightarrow> 'a list" where
  \<comment> \<open>\<^verbatim>\<open>LIMIT ? OFFSET ?\<close>: a negative limit means no limit, a negative offset means 0\<close>
  "sql_limit l off rows =
     (let rest = drop (nat off) rows in if l < 0 then rest else take (nat l) rest)"

definition execute_search ::
  "fts5 \<Rightarrow> store \<Rightarrow> search_query \<Rightarrow> sqlite_error + (document_row \<times> real \<times> jsstring) list" where
  "execute_search fts s q =
     (case fts (q_match q) of
        None \<Rightarrow> Inl SqlLogicError
      | Some m \<Rightarrow>
          Inr (sql_limit (q_limit q) (q_offset q)
                 (sort_key (\<lambda>(d, rank, snip). rank)
                    (List.map_filter
                       (\<lambda>d. case m d of None \<Rightarrow> None
                             | Some (rank, snip) \<Rightarrow> if selected q d then Some (d, rank, snip) else None)
                       s))))"

datatype search_error = NotInitialized | StorageFault sqlite_error

definition truthy :: "jsstring option \<Rightarrow> jsstring option" where
  \<comment> \<open>\<^verbatim>\<open>if (packageName)\<close>: undefined and the empty string add no predicate\<close>
  "truthy x = (case x of None \<Rightarrow> None | Some v \<Rightarrow> if v = [] then None else Some v)"

definition build_query :: "jsstring \<Rightarrow> SearchOptions \<Rightarrow> search_query" where
  "build_query sanitizedQuery options =
     (let type = (case opt_type options of None \<Rightarrow> js ''all'' | Some t \<Rightarrow> t)
      in \<lparr> q_match = sanitizedQuery,
           q_version = (case opt_version options of None \<Rightarrow> js ''6000.1'' | Some v \<Rightarrow> v),
           q_type = (if type \<noteq> js ''all'' then Some type else None),
           q_package_name = truthy (opt_packageName options),
           q_package_version = truthy (opt_packageVersion options),
           q_limit = (case opt_limit options of None \<Rightarrow> 10 | Some l \<Rightarrow> l),
           q_offset = (case opt_offset options of None \<Rightarrow> 0 | Some off \<Rightarrow> off) \<rparr>)"

definition to_result :: "document_row \<times> real \<times> jsstring \<Rightarrow> SearchResult" where
  "to_result row =
     (case row of (d, rank, snip) \<Rightarrow>
        \<lparr> res_id = doc_id d, res_title = title d, res_type = doc_type d,
          res_filePath = file_path d, res_url = url d,
          res_packageName = package_name d, res_packageVersion = package_version d,
          snippet = snip, score = \<bar>rank\<bar> \<rparr>)"

text \<open>
  \<open>search\<close> returns its outcome (a thrown error or the result list) together with the
  statements it executed against the store. The database handle is \<open>None\<close> when the
  connection was never initialised (\<^verbatim>\<open>getDatabase\<close> throws).
\<close>

definition search ::
  "fts5 \<Rightarrow> store option \<Rightarrow> SearchOptions \<Rightarrow> (search_error + SearchResult list) \<times> search_query list" where
  "search fts db options =
     (let sanitizedQuery = sanitizeSearchQuery (opt_query options)
      in if trim sanitizedQuery = [] then (Inr [], [])
         else case db of
                None \<Rightarrow> (Inl NotInitialized, [])
              | Some s \<Rightarrow>
                  (let q = build_query sanitizedQuery options
                   in case execute_search fts s q of
                        Inl e \<Rightarrow> (Inl (StorageFault e), [q])
                      | Inr rows \<Rightarrow> (Inr (map to_result rows), [q])))"

section \<open>Pagination Layer (server.ts, read_unity_doc)\<close>

definition substring :: "'a list \<Rightarrow> int \<Rightarrow> int \<Rightarrow> 'a list" where
  \<comment> \<open>\<^verbatim>\<open>String.prototype.substring\<close>: both indices are clamped to the string and swapped
      when the first is the larger\<close>
  "substring s start fin =
     (let len = int (length s);
          a = min (max start 0) len;
          b = min (max fin 0) len
      in take (nat (max a b - min a b)) (drop (nat (min a b)) s))"

record doc_page =
  contentChunk :: jsstring
  totalLength :: int
  hasMore :: bool
  nextOffset :: "int option"

definition read_page :: "jsstring \<Rightarrow> int \<Rightarrow> int \<Rightarrow> doc_page" where
  \<comment> \<open>the chunk and the pagination data that the handler writes into its response; the
      line \<^verbatim>\<open>Next offset\<close> is written only when \<open>hasMore\<close> holds\<close>
  "read_page cont offset limit =
     \<lparr> contentChunk = substring cont offset (offset + limit),
       totalLength = int (length cont),
       hasMore = (offset + limit < int (length cont)),
       nextOffset = (if offset + limit < int (length cont) then Some (offset + limit) else None) \<rparr>"

definition getDocumentByPath :: "store \<Rightarrow> jsstring \<Rightarrow> jsstring \<Rightarrow> document_row option" where
  \<comment> \<open>\<^verbatim>\<open>SELECT * FROM documents WHERE file_path = ? AND unity_version = ?\<close>, first row\<close>
  "getDocumentByPath s filePath version =
     List.find (\<lambda>d. file_path d = filePath \<and> unity_version d = version) s"

record ParsedDocument =
  parsed_title :: jsstring
  parsed_content :: jsstring
  parsed_type :: jsstring

text \<open>The parser is a parameter: from the markup and the file path it yields title,
  content and type, or it throws (\<open>None\<close>).\<close>

type_synonym html_parser = "jsstring \<Rightarrow> jsstring \<Rightarrow> ParsedDocument option"

datatype file_state = Missing | Unreadable | Readable jsstring

datatype handler_error = DatabaseNotInitialized | ReadFileFailed | ParseFailed

datatype tool_response =
    ErrorText handler_error
  | NotFoundText
  | FileText ParsedDocument doc_page
  | DocumentText document_row doc_page "jsstring list"

definition read_unity_doc ::
  "html_parser \<Rightarrow> (jsstring \<Rightarrow> jsstring list) \<Rightarrow> (jsstring \<Rightarrow> file_state) \<Rightarrow> store option
     \<Rightarrow> jsstring \<Rightarrow> int option \<Rightarrow> int option \<Rightarrow> tool_response" where
  \<comment> \<open>the handler of the tool. \<open>extractCodeBlocks\<close> is the parser's function of that name
      applied to the stored markup, \<open>files\<close> the extracted documentation on disk. The
      response text is built from the parts kept here; an exception is caught at the
      boundary and rendered as an error text.\<close>
  "read_unity_doc parse extractCodeBlocks files db path offset_arg limit_arg =
     (let offset = (case offset_arg of None \<Rightarrow> 0 | Some off \<Rightarrow> off);
          limit = (case limit_arg of None \<Rightarrow> 2000 | Some l \<Rightarrow> l)
      in case db of
           None \<Rightarrow> ErrorText DatabaseNotInitialized
         | Some s \<Rightarrow>
             (case getDocumentByPath s path (js ''6000.1'') of
                None \<Rightarrow>
                  (case files path of
                     Missing \<Rightarrow> NotFoundText
                   | Unreadable \<Rightarrow> ErrorText ReadFileFailed
                   | Readable markup \<Rightarrow>
                       (case parse markup path of
                          None \<Rightarrow> ErrorText ParseFailed
                        | Some parsed \<Rightarrow>
                            FileText parsed (read_page (parsed_content parsed) offset limit)))
              | Some doc \<Rightarrow>
                  DocumentText doc (read_page (content doc) offset limit)
                    (take 3 (extractCodeBlocks (html doc)))))"

text \<open>
  The client's loop: read the page at \<open>offset\<close>, append its chunk, and continue at the
  reported next offset while the page says there is more. \<open>None\<close> means that the fuel
  ran out or that a call did not return a page of a stored document.
\<close>

fun read_pages ::
  "nat \<Rightarrow> html_parser \<Rightarrow> (jsstring \<Rightarrow> jsstring list) \<Rightarrow> (jsstring \<Rightarrow> file_state) \<Rightarrow> store option
     \<Rightarrow> jsstring \<Rightarrow> int \<Rightarrow> int \<Rightarrow> jsstring option" where
  "read_pages 0 parse extractCodeBlocks files db path limit offset = None"
| "read_pages (Suc fuel) parse extractCodeBlocks files db path limit offset =
     (case read_unity_doc parse extractCodeBlocks files db path (Some offset) (Some limit) of
        DocumentText doc p codes \<Rightarrow>
          (case nextOffset p of
             None \<Rightarrow> Some (contentChunk p)
           | Some next \<Rightarrow>
               map_option (\<lambda>rest. contentChunk p @ rest)
                 (read_pages fuel parse extractCodeBlocks files db path limit next))
      | _ \<Rightarrow> None)"

section \<open>Document Indexer (scripts/index-docs.ts, main)\<close>

text \<open>
  The directory tree as the script meets it. \<^verbatim>\<open>readdir\<close> of a directory yields its
  entries or throws (\<open>None\<close>); \<^verbatim>\<open>readFile\<close> of a file yields its text or throws
  (\<open>None\<close>). The parser and the hash (SHA-256, hexadecimal, first 16 characters) are
  parameters.
\<close>

datatype fs_entry = Dir jsstring "fs_entry list option" | File jsstring "jsstring option"

record run_state =
  documents :: store
  processedCount :: nat
  errorCount :: nat

datatype index_error = ReaddirFailed | OptimizeFailed

definition endsWith :: "jsstring \<Rightarrow> jsstring \<Rightarrow> bool" where
  "endsWith s suf \<longleftrightarrow> length suf \<le> length s \<and> drop (length s - length suf) s = suf"

definition joinPath :: "jsstring \<Rightarrow> jsstring \<Rightarrow> jsstring" where
  \<comment> \<open>the path of an entry relative to the documentation root: \<^verbatim>\<open>join(dirPath, name)\<close>
      with the prefix \<^verbatim>\<open>docsPath + '/'\<close> removed\<close>
  "joinPath dir name = (if dir = [] then name else dir @ js ''/'' @ name)"

definition processFile ::
  "html_parser \<Rightarrow> (jsstring \<Rightarrow> jsstring) \<Rightarrow> jsstring \<Rightarrow> jsstring \<Rightarrow> jsstring option \<Rightarrow> run_state \<Rightarrow> run_state" where
  \<comment> \<open>the body of the \<^verbatim>\<open>try\<close> for one \<^verbatim>\<open>.html\<close> file; every failure inside it is caught
      and counted\<close>
  "processFile parse hash version relativePath contents st =
     (case contents of
        None \<Rightarrow> st\<lparr>errorCount := errorCount st + 1\<rparr>
      | Some markup \<Rightarrow>
          (case parse markup relativePath of
             None \<Rightarrow> st\<lparr>errorCount := errorCount st + 1\<rparr>
           | Some parsed \<Rightarrow>
               (case insert_document (documents st)
                       \<lparr> doc_id = hash (version @ js '':'' @ relativePath),
                         unity_version = version,
                         doc_type = parsed_type parsed,
                         title = parsed_title parsed,
                         file_path = relativePath,
                         url = Some (js ''unity://'' @ version @ js ''/'' @ relativePath),
                         content = parsed_content parsed,
                         html = markup,
                         package_name = None,
                         package_version = None \<rparr> of
                  Inl e \<Rightarrow> st\<lparr>errorCount := errorCount st + 1\<rparr>
                | Inr s' \<Rightarrow> st\<lparr>documents := s', processedCount := processedCount st + 1\<rparr>)))"

fun processEntries ::
  "html_parser \<Rightarrow> (jsstring \<Rightarrow> jsstring) \<Rightarrow> jsstring \<Rightarrow> jsstring \<Rightarrow> fs_entry list \<Rightarrow> run_state
     \<Rightarrow> index_error option \<times> run_state"
and processDirectory ::
  "html_parser \<Rightarrow> (jsstring \<Rightarrow> jsstring) \<Rightarrow> jsstring \<Rightarrow> jsstring \<Rightarrow> fs_entry list option \<Rightarrow> run_state
     \<Rightarrow> index_error option \<times> run_state"
where
  "processEntries parse hash version dir [] st = (None, st)"
| "processEntries parse hash version dir (Dir name listing # es) st =
     (case processDirectory parse hash version (joinPath dir name) listing st of
        (Some e, st') \<Rightarrow> (Some e, st')
      | (None, st') \<Rightarrow> processEntries parse hash version dir es st')"
| "processEntries parse hash version dir (File name contents # es) st =
     (if endsWith name (js ''.html'')
      then processEntries parse hash version dir es
             (processFile parse hash version (joinPath dir name) contents st)
      else processEntries parse hash version dir es st)"
| "processDirectory parse hash version dir None st = (Some ReaddirFailed, st)"
| "processDirectory parse hash version dir (Some es) st =
     processEntries parse hash version dir es st"

definition index_docs ::
  "html_parser \<Rightarrow> (jsstring \<Rightarrow> jsstring) \<Rightarrow> jsstring \<Rightarrow> fs_entry list option \<Rightarrow> bool \<Rightarrow> store
     \<Rightarrow> index_error option \<times> run_state" where
  \<comment> \<open>\<open>main\<close> on an initialised database \<open>s\<close>: every statement runs on its own, in
      autocommit mode. \<open>optimize_ok\<close> tells whether the final optimisation of the
      full-text index succeeds. An error makes the script exit with status 1; the
      state is the database it leaves behind.\<close>
  "index_docs parse hash version docsDir optimize_ok s =
     (case processDirectory parse hash version [] docsDir
             \<lparr> documents = delete_version s version, processedCount = 0, errorCount = 0 \<rparr> of
        (Some e, st) \<Rightarrow> (Some e, st)
      | (None, st) \<Rightarrow> if optimize_ok then (None, st) else (Some OptimizeFailed, st))"

section \<open>Section Extractor (server.ts, extractSections)\<close>

text \<open>
  The markup as \<^verbatim>\<open>cheerio.load\<close> hands it over: a tree of elements and text nodes.
  An element is identified by its position, the path of child indices from the root.
\<close>

datatype node = Element jsstring "node list" | TextNode jsstring

type_synonym located = "nat list \<times> node"

fun text_of :: "node \<Rightarrow> jsstring" where
  \<comment> \<open>\<^verbatim>\<open>.text()\<close>: the text nodes below the element, concatenated\<close>
  "text_of (TextNode t) = t"
| "text_of (Element tag children) = concat (map text_of children)"

definition isHeadingTag :: "jsstring \<Rightarrow> bool" where
  "isHeadingTag tag \<longleftrightarrow>
     tag = js ''h1'' \<or> tag = js ''h2'' \<or> tag = js ''h3'' \<or> tag = js ''h4'' \<or> tag = js ''h5'' \<or> tag = js ''h6''"

fun isHeading :: "node \<Rightarrow> bool" where
  \<comment> \<open>\<^verbatim>\<open>.is('h1, h2, h3, h4, h5, h6')\<close>\<close>
  "isHeading (Element tag children) = isHeadingTag tag"
| "isHeading (TextNode t) = False"

fun tagName :: "node \<Rightarrow> jsstring" where
  "tagName (Element tag children) = tag"
| "tagName (TextNode t) = []"

definition levelOf :: "node \<Rightarrow> nat" where
  \<comment> \<open>\<^verbatim>\<open>parseInt(heading.tagName.substring(1))\<close> on one of the tags h1 to h6\<close>
  "levelOf n = (case drop 1 (tagName n) of [d] \<Rightarrow> unat d - 48 | _ \<Rightarrow> 0)"

fun elementSiblings :: "nat list \<Rightarrow> nat \<Rightarrow> node list \<Rightarrow> located list" where
  \<comment> \<open>the elements among the nodes \<open>ns\<close>, which are the children from index \<open>i\<close> on of the
      node at \<open>p\<close>: what repeated \<^verbatim>\<open>.next()\<close> visits\<close>
  "elementSiblings p i [] = []"
| "elementSiblings p i (TextNode t # ns) = elementSiblings p (Suc i) ns"
| "elementSiblings p i (Element tag children # ns) =
     (p @ [i], Element tag children) # elementSiblings p (Suc i) ns"

fun selectHeadings :: "nat list \<Rightarrow> nat \<Rightarrow> node list \<Rightarrow> (located \<times> located list) list" where
  \<comment> \<open>\<^verbatim>\<open>$('h1, h2, h3, h4, h5, h6').toArray()\<close>: the heading elements in document order,
      each with the elements that follow it among its siblings\<close>
  "selectHeadings p i [] = []"
| "selectHeadings p i (TextNode t # ns) = selectHeadings p (Suc i) ns"
| "selectHeadings p i (Element tag children # ns) =
     (if isHeadingTag tag then [((p @ [i], Element tag children), elementSiblings p (Suc i) ns)] else [])
     @ selectHeadings (p @ [i]) 0 children
     @ selectHeadings p (Suc i) ns"

definition findNextHeading :: "(located \<times> located list) list \<Rightarrow> nat \<Rightarrow> located option" where
  \<comment> \<open>the first heading after index \<open>i\<close> whose level is at most that of heading \<open>i\<close>\<close>
  "findNextHeading headings i =
     map_option fst
       (List.find (\<lambda>h. levelOf (snd (fst h)) \<le> levelOf (snd (fst (headings ! i))))
          (drop (Suc i) headings))"

definition isNode :: "located \<Rightarrow> located option \<Rightarrow> bool" where
  \<comment> \<open>\<^verbatim>\<open>nextHeading && current.is(nextHeading)\<close>: the same element\<close>
  "isNode current nextHeading = (case nextHeading of None \<Rightarrow> False | Some h \<Rightarrow> fst current = fst h)"

fun collectContent :: "located option \<Rightarrow> located list \<Rightarrow> jsstring \<Rightarrow> jsstring" where
  \<comment> \<open>the \<^verbatim>\<open>while\<close> loop over the following siblings\<close>
  "collectContent nextHeading [] sectionContent = sectionContent"
| "collectContent nextHeading (current # rest) sectionContent =
     (if isNode current nextHeading then sectionContent
      else if isHeading (snd current) then sectionContent
      else let currentText = trim (text_of (snd current))
           in collectContent nextHeading rest
                (if currentText \<noteq> [] then sectionContent @ currentText @ js ''\<newline>'' else sectionContent))"

fun decimal :: "nat \<Rightarrow> jsstring" where
  "decimal n = (if n < 10 then [of_nat (48 + n)] else decimal (n div 10) @ [of_nat (48 + n mod 10)])"

record DocumentSection =
  sec_id :: jsstring
  sec_title :: jsstring
  sec_level :: nat
  sec_start :: nat
  sec_end :: nat
  sec_content :: jsstring

definition sectionAt :: "(located \<times> located list) list \<Rightarrow> nat \<Rightarrow> DocumentSection" where
  \<comment> \<open>the body of the \<^verbatim>\<open>forEach\<close> for the heading at \<open>index\<close>\<close>
  "sectionAt headings index =
     (let heading = snd (fst (headings ! index));
          headingTitle = trim (text_of heading)
      in \<lparr> sec_id = js ''section-'' @ decimal index,
           sec_title = headingTitle,
           sec_level = levelOf heading,
           sec_start = 0,
           sec_end = 0,
           sec_content =
             trim (collectContent (findNextHeading headings index) (snd (headings ! index))
                     (headingTitle @ js ''\<newline>\<newline>'')) \<rparr>)"

definition extractSections :: "node list \<Rightarrow> DocumentSection list" where
  "extractSections nodes =
     (let headings = selectHeadings [] 0 nodes
      in map (sectionAt headings) [0..<length headings])"

subsection \<open>The text between two headings, in the words of the specification\<close>

text \<open>
  The specification speaks of the document as a sequence: the text strictly between
  heading \<open>i\<close> and the next heading at a level less than or equal to its own, or the end
  of the document. \<open>documentOrder\<close> lists every node of the markup in document order;
  the text between is the text of the text nodes that come after heading \<open>i\<close> and what it
  contains, and before that next heading. Nothing here looks at siblings.
\<close>

fun documentOrder :: "node list \<Rightarrow> node list" where
  "documentOrder [] = []"
| "documentOrder (TextNode t # ns) = TextNode t # documentOrder ns"
| "documentOrder (Element tag children # ns) =
     Element tag children # documentOrder children @ documentOrder ns"

fun childrenOf :: "node \<Rightarrow> node list" where
  "childrenOf (Element tag children) = children"
| "childrenOf (TextNode t) = []"

fun ownText :: "node \<Rightarrow> jsstring" where
  "ownText (TextNode t) = t"
| "ownText (Element tag children) = []"

fun afterHeading :: "nat \<Rightarrow> node list \<Rightarrow> (node \<times> node list) option" where
  \<comment> \<open>heading \<open>i\<close> of a sequence in document order, with what follows the heading and
      its descendants\<close>
  "afterHeading i [] = None"
| "afterHeading i (n # ns) =
     (if isHeading n
      then (case i of
              0 \<Rightarrow> Some (n, drop (length (documentOrder (childrenOf n))) ns)
            | Suc j \<Rightarrow> afterHeading j ns)
      else afterHeading i ns)"

definition textStrictlyBetween :: "node list \<Rightarrow> nat \<Rightarrow> jsstring" where
  "textStrictlyBetween nodes i =
     (case afterHeading i (documentOrder nodes) of
        None \<Rightarrow> []
      | Some (heading, following) \<Rightarrow>
          concat (map ownText
            (takeWhile (\<lambda>n. \<not> (isHeading n \<and> levelOf n \<le> levelOf heading)) following)))"

definition headingCount :: "node list \<Rightarrow> nat" where
  \<comment> \<open>the number of heading elements of a markup\<close>
  "headingCount nodes = length (filter isHeading (documentOrder nodes))"

subsection \<open>Markup in which a section lies flat\<close>

text \<open>
  A markup is described from the outside in by frames: the container element that holds
  the place of interest, with the nodes to its left and to its right. \<open>plug frames inner\<close>
  is the markup in which the node list \<open>inner\<close> is the child list of the innermost
  container; without frames it is \<open>inner\<close> itself.
\<close>

type_synonym frame = "node list \<times> jsstring \<times> node list"

fun plug :: "frame list \<Rightarrow> node list \<Rightarrow> node list" where
  "plug [] inner = inner"
| "plug ((left, tag, right) # frames) inner = left @ [Element tag (plug frames inner)] @ right"

fun cutRight :: "frame \<Rightarrow> frame" where
  \<comment> \<open>the frame without what follows the container\<close>
  "cutRight (left, tag, right) = (left, tag, [])"

fun followingNodes :: "frame list \<Rightarrow> node list" where
  \<comment> \<open>what follows the place of interest: the nodes to the right of the innermost
      container, then of the one around it, and so on\<close>
  "followingNodes [] = []"
| "followingNodes ((left, tag, right) # frames) = followingNodes frames @ right"

definition sectionEnds :: "frame list \<Rightarrow> node list \<Rightarrow> nat \<Rightarrow> bool" where
  \<comment> \<open>what follows the body of a section at level \<open>L\<close>, first among the siblings and then
      outside them: nothing up to the end of the document, or a heading at a level less
      than or equal to \<open>L\<close>\<close>
  "sectionEnds frames rest L =
     (case rest @ followingNodes frames of
        [] \<Rightarrow> True
      | n # ns \<Rightarrow> isHeading n \<and> levelOf n \<le> L)"

fun blankText :: "node \<Rightarrow> bool" where
  \<comment> \<open>a text node of white space only; every element passes\<close>
  "blankText (TextNode t) = list_all isWhiteSpace t"
| "blankText (Element tag children) = True"

fun lineOf :: "node \<Rightarrow> jsstring" where
  \<comment> \<open>the trimmed text of an element on a line of its own, nothing when it is empty\<close>
  "lineOf (TextNode t) = []"
| "lineOf (Element tag children) =
     (case trim (text_of (Element tag children)) of
        [] \<Rightarrow> []
      | c # cs \<Rightarrow> c # cs @ js ''\<newline>'')"

section \<open>Auxiliary notions for the proofs\<close>

fun collapsed :: "jsstring \<Rightarrow> bool" where
  \<comment> \<open>white space occurs only as single spaces\<close>
  "collapsed [] = True"
| "collapsed (c # cs) =
     ((isWhiteSpace c \<longrightarrow> c = SP \<and> (case cs of [] \<Rightarrow> True | d # ds \<Rightarrow> \<not> isWhiteSpace d))
      \<and> collapsed cs)"

definition inOutputClass :: "jschar \<Rightarrow> bool" where
  "inOutputClass c \<longleftrightarrow> isAlnum c \<or> c = SP \<or> c = of_char CHR ''_'' \<or> c = of_char CHR ''-''"

fun beforeNodes :: "frame list \<Rightarrow> node list \<Rightarrow> node list" where
  \<comment> \<open>the nodes that precede \<open>inner\<close> in the document order of \<open>plug frames inner\<close>\<close>
  "beforeNodes [] inner = []"
| "beforeNodes ((left, tag, right) # frames) inner =
     documentOrder left @ Element tag (plug frames inner) # beforeNodes frames inner"

fun frameHeadings :: "frame list \<Rightarrow> nat" where
  \<comment> \<open>the number of headings that precede it\<close>
  "frameHeadings [] = 0"
| "frameHeadings ((left, tag, right) # frames) =
     headingCount left + (if isHeadingTag tag then 1 else 0) + frameHeadings frames"

section \<open>Properties of the sanitizer\<close>

lemma SP_isWhiteSpace [simp]: "isWhiteSpace SP"
  by (simp add: SP_def isWhiteSpace_def)

lemma set_trimEnd: "set (trimEnd s) \<subseteq> set s"
  by (induction s) (auto split: list.splits)

lemma set_trim: "set (trim s) \<subseteq> set s"
  using set_trimEnd [of "trimStart s"] set_dropWhileD [of _ isWhiteSpace s]
  by (auto simp: trim_def trimStart_def)

lemma set_collapseWhiteSpace:
  "set (collapseWhiteSpace s) \<subseteq> {c \<in> set s. \<not> isWhiteSpace c} \<union> {SP}"
proof (induction s rule: collapseWhiteSpace.induct)
  case 1
  show ?case by simp
next
  case (2 c cs)
  show ?case
  proof (cases "isWhiteSpace c")
    case True
    with 2 have "set (collapseWhiteSpace (dropWhile isWhiteSpace cs))
        \<subseteq> {c \<in> set (dropWhile isWhiteSpace cs). \<not> isWhiteSpace c} \<union> {SP}"
      by simp
    with True show ?thesis
      by (auto dest: set_dropWhileD)
  next
    case False
    with 2 show ?thesis by auto
  qed
qed

lemma set_replaceUnsafe: "c \<in> set (replaceUnsafe s) \<Longrightarrow> inSafeClass c"
  by (auto simp: replaceUnsafe_def inSafeClass_def)

lemma sanitize_output_class:
  assumes "c \<in> set (sanitizeSearchQuery q)"
  shows "inOutputClass c"
proof -
  obtain x where c: "c \<in> set (trim (collapseWhiteSpace (replaceUnsafe x)))"
    using assms unfolding sanitizeSearchQuery_def by blast
  then have "c \<in> set (collapseWhiteSpace (replaceUnsafe x))"
    using set_trim by blast
  then have "(c \<in> set (replaceUnsafe x) \<and> \<not> isWhiteSpace c) \<or> c = SP"
    using set_collapseWhiteSpace by blast
  then show ?thesis
    by (auto simp: inOutputClass_def inSafeClass_def dest!: set_replaceUnsafe)
qed

lemma forbidden_not_output: "c \<in> set forbiddenChars \<Longrightarrow> \<not> inOutputClass c"
  by (auto simp: forbiddenChars_def js_def inOutputClass_def isAlnum_def SP_def)

lemma collapseWhiteSpace_head:
  "collapseWhiteSpace t = d # ds \<Longrightarrow> t \<noteq> [] \<and> (isWhiteSpace d \<longleftrightarrow> isWhiteSpace (hd t))"
  by (cases t) (auto split: if_splits)

lemma dropWhile_head: "dropWhile P xs = d # ds \<Longrightarrow> \<not> P d"
  using hd_dropWhile [of P xs] by auto

lemma collapsed_collapseWhiteSpace: "collapsed (collapseWhiteSpace s)"
proof (induction s rule: collapseWhiteSpace.induct)
  case 1
  show ?case by simp
next
  case (2 c cs)
  show ?case
  proof (cases "isWhiteSpace c")
    case True
    have "\<not> isWhiteSpace d" if "collapseWhiteSpace (dropWhile isWhiteSpace cs) = d # ds" for d ds
    proof -
      from collapseWhiteSpace_head [OF that]
      have ne: "dropWhile isWhiteSpace cs \<noteq> []"
        and eq: "isWhiteSpace d \<longleftrightarrow> isWhiteSpace (hd (dropWhile isWhiteSpace cs))" by auto
      from ne show ?thesis unfolding eq by (rule hd_dropWhile)
    qed
    with True 2 show ?thesis by (auto split: list.splits)
  next
    case False
    with 2 show ?thesis by simp
  qed
qed

lemma collapseWhiteSpace_collapsed: "collapsed s \<Longrightarrow> collapseWhiteSpace s = s"
proof (induction s)
  case Nil
  show ?case by simp
next
  case (Cons c cs)
  then have "dropWhile isWhiteSpace cs = cs" if "isWhiteSpace c"
    using that by (cases cs) auto
  with Cons show ?case by auto
qed

lemma collapsed_dropWhile: "collapsed s \<Longrightarrow> collapsed (dropWhile P s)"
  by (induction s) auto

lemma trimEnd_head: "trimEnd s = d # ds \<Longrightarrow> hd s = d"
  by (cases s) (auto split: list.splits if_splits)

lemma collapsed_trimEnd: "collapsed s \<Longrightarrow> collapsed (trimEnd s)"
proof (induction s)
  case Nil
  show ?case by simp
next
  case (Cons c cs)
  from Cons.prems have cs: "collapsed cs" by simp
  show ?case
  proof (cases "trimEnd cs")
    case Nil
    then show ?thesis by simp
  next
    case tail: (Cons d ds)
    then have "cs \<noteq> []" by auto
    with trimEnd_head [OF tail] obtain cs' where cs': "cs = d # cs'"
      by (cases cs) auto
    have "isWhiteSpace c \<longrightarrow> c = SP \<and> \<not> isWhiteSpace d"
      using Cons.prems cs' by simp
    moreover have "collapsed (d # ds)"
      using Cons.IH [OF cs] tail by simp
    ultimately show ?thesis using tail by simp
  qed
qed

lemma trimEnd_idem: "trimEnd (trimEnd s) = trimEnd s"
  by (induction s) (auto split: list.splits)

lemma trimStart_trimEnd:
  assumes "s = [] \<or> \<not> isWhiteSpace (hd s)"
  shows "trimStart (trimEnd s) = trimEnd s"
proof (cases "trimEnd s")
  case Nil
  then show ?thesis by (simp add: trimStart_def)
next
  case (Cons d ds)
  with assms trimEnd_head [OF Cons] have "\<not> isWhiteSpace d" by auto
  with Cons show ?thesis by (simp add: trimStart_def)
qed

lemma trim_idem: "trim (trim s) = trim s"
proof -
  have "trimStart s = [] \<or> \<not> isWhiteSpace (hd (trimStart s))"
    unfolding trimStart_def using hd_dropWhile [of isWhiteSpace s] by blast
  then show ?thesis
    by (simp add: trim_def trimStart_trimEnd trimEnd_idem)
qed

lemma collapsed_trim: "collapsed s \<Longrightarrow> collapsed (trim s)"
  by (simp add: trim_def trimStart_def collapsed_trimEnd collapsed_dropWhile)

lemma removeAll_output:
  assumes "\<forall>c \<in> set s. inOutputClass c" and "set cls \<subseteq> set forbiddenChars"
  shows "removeAll cls s = s"
  unfolding removeAll_def using assms forbidden_not_output by (auto simp: filter_id_conv)

lemma replaceUnsafe_output:
  assumes "\<forall>c \<in> set s. inOutputClass c"
  shows "replaceUnsafe s = s"
  unfolding replaceUnsafe_def using assms
  by (intro map_idI) (auto simp: inOutputClass_def inSafeClass_def)

lemma forbidden_classes:
  "set (js ''.'') \<subseteq> set forbiddenChars" "set (js ''()'') \<subseteq> set forbiddenChars"
  "set (js ''*'') \<subseteq> set forbiddenChars" "set (js ''?'') \<subseteq> set forbiddenChars"
  "set (js ''{}'') \<subseteq> set forbiddenChars" "set (js ''[]'') \<subseteq> set forbiddenChars"
  by (simp_all add: forbiddenChars_def js_def)

text \<open>
  Claim C7: the Query Sanitizer is idempotent; sanitizing a sanitized query changes
  nothing, whatever the input string.
\<close>

theorem sanitizer_idempotent: "sanitizeSearchQuery (sanitizeSearchQuery q) = sanitizeSearchQuery q"
proof -
  let ?out = "sanitizeSearchQuery q"
  have safe: "\<forall>c \<in> set ?out. inOutputClass c"
    using sanitize_output_class by blast
  obtain x where out: "?out = trim (collapseWhiteSpace x)"
    unfolding sanitizeSearchQuery_def by blast
  have "collapsed ?out"
    unfolding out by (rule collapsed_trim) (rule collapsed_collapseWhiteSpace)
  then have c: "collapseWhiteSpace ?out = ?out"
    by (rule collapseWhiteSpace_collapsed)
  have t: "trim ?out = ?out"
    unfolding out by (rule trim_idem)
  have "sanitizeSearchQuery ?out = trim (collapseWhiteSpace ?out)"
    unfolding sanitizeSearchQuery_def [of ?out]
    by (simp add: removeAll_output [OF safe] replaceUnsafe_output [OF safe] forbidden_classes)
  with c t show ?thesis by simp
qed

text \<open>
  Claim C3: every character of the sanitizer's output is an ASCII letter, a digit, white
  space, an underscore or a hyphen, and none of the characters \<^verbatim>\<open>. ( ) * ? { } [ ]\<close>
  occurs in it, whatever the input string.
\<close>

theorem sanitizer_safety:
  "c \<in> set (sanitizeSearchQuery q) \<Longrightarrow> inSafeClass c \<and> c \<notin> set forbiddenChars"
  using sanitize_output_class [of c q] forbidden_not_output [of c]
  by (auto simp: inOutputClass_def inSafeClass_def)

theorem sanitizer_safety_witness:
  "of_char CHR ''6'' \<in> set (sanitizeSearchQuery (js ''Unity (6.0)*''))
   \<and> inSafeClass (of_char CHR ''6'') \<and> of_char CHR ''6'' \<notin> set forbiddenChars"
proof -
  have q: "sanitizeSearchQuery (js ''Unity (6.0)*'') = js ''Unity 60''"
    by (simp add: sanitizeSearchQuery_def js_def removeAll_def replaceUnsafe_def inSafeClass_def
        isAlnum_def isWhiteSpace_def trim_def trimStart_def SP_def)
  have h: "of_char CHR ''6'' \<in> set (sanitizeSearchQuery (js ''Unity (6.0)*''))"
    unfolding q by (simp add: js_def)
  from h sanitizer_safety [OF h] show ?thesis by blast
qed

lemma sanitize_examples:
  "sanitizeSearchQuery (js ''Unity 6.0'') = js ''Unity 60''"
  "sanitizeSearchQuery (js ''...'') = []"
  by (simp_all add: sanitizeSearchQuery_def js_def removeAll_def replaceUnsafe_def inSafeClass_def
        isAlnum_def isWhiteSpace_def trim_def trimStart_def SP_def)


section \<open>Properties of the Search Engine\<close>

lemma length_sql_limit: "0 \<le> l \<Longrightarrow> int (length (sql_limit l off rows)) \<le> l"
  by (simp add: sql_limit_def)

lemma set_sql_limit: "set (sql_limit l off rows) \<subseteq> set rows"
  by (auto simp: sql_limit_def Let_def dest: in_set_takeD in_set_dropD)

lemma execute_search_selected:
  assumes "execute_search fts s q = Inr rows" and "(d, rank, snip) \<in> set rows"
  shows "selected q d"
proof -
  from assms(1) obtain m where m: "fts (q_match q) = Some m"
    by (auto simp: execute_search_def split: option.splits)
  let ?pick = "\<lambda>d. case m d of None \<Rightarrow> None
                 | Some (rank, snip) \<Rightarrow> if selected q d then Some (d, rank, snip) else None"
  from assms(1) m have "rows = sql_limit (q_limit q) (q_offset q)
      (sort_key (\<lambda>(d, rank, snip). rank) (List.map_filter ?pick s))"
    by (simp add: execute_search_def)
  with assms(2) set_sql_limit have "(d, rank, snip) \<in> set (List.map_filter ?pick s)"
    by fastforce
  then show ?thesis
    by (auto simp: map_filter_def split: option.splits if_splits)
qed

lemma execute_search_length:
  assumes "execute_search fts s q = Inr rows" and "0 \<le> q_limit q"
  shows "int (length rows) \<le> q_limit q"
  using assms by (auto simp: execute_search_def length_sql_limit split: option.splits)

lemma search_rows:
  assumes "search fts db options = (Inr results, queries)"
    and "trim (sanitizeSearchQuery (opt_query options)) \<noteq> []"
  obtains s rows where "db = Some s"
    and "execute_search fts s (build_query (sanitizeSearchQuery (opt_query options)) options) = Inr rows"
    and "results = map to_result rows"
  using assms by (auto simp: search_def Let_def split: option.splits sum.splits)

text \<open>
  Claim C4: when the sanitized form of the query is empty, \<open>search\<close> returns the empty
  result list, as a normal outcome, and executes no statement against the store; this
  holds for every engine and every state of the database handle.
\<close>

theorem search_empty_query:
  "sanitizeSearchQuery (opt_query options) = [] \<Longrightarrow> search fts db options = (Inr [], [])"
  by (simp add: search_def trim_def trimStart_def)

theorem search_empty_query_witness:
  "sanitizeSearchQuery (opt_query \<lparr> opt_query = js ''...'', opt_limit = None, opt_offset = None,
       opt_type = None, opt_version = None, opt_packageName = None, opt_packageVersion = None \<rparr>) = []
   \<and> search (\<lambda>q. None) None \<lparr> opt_query = js ''...'', opt_limit = None, opt_offset = None,
       opt_type = None, opt_version = None, opt_packageName = None, opt_packageVersion = None \<rparr>
     = (Inr [], [])"
proof -
  let ?options = "\<lparr> opt_query = js ''...'', opt_limit = None, opt_offset = None,
       opt_type = None, opt_version = None, opt_packageName = None, opt_packageVersion = None \<rparr>"
  have h: "sanitizeSearchQuery (opt_query ?options) = []"
    by (simp add: sanitizeSearchQuery_def js_def removeAll_def replaceUnsafe_def trim_def trimStart_def)
  from h search_empty_query [OF h, of "\<lambda>q. None" None] show ?thesis by blast
qed

text \<open>
  Claim C8, as stated, for every limit: a negative limit is passed to the engine as it
  is, where it means no limit, so the list is longer than the limit.
\<close>

theorem search_limit_counterexample:
  "fst (search (\<lambda>q. Some (\<lambda>d. Some (- 1, js ''<mark>a</mark>'')))
         (Some [\<lparr> doc_id = js ''1'', unity_version = js ''6000.1'', doc_type = js ''manual'',
                   title = js ''a'', file_path = js ''Manual/a.html'', url = None,
                   content = js ''a'', html = js ''a'', package_name = None,
                   package_version = None \<rparr>])
         \<lparr> opt_query = js ''a'', opt_limit = Some (- 1), opt_offset = None,
           opt_type = Some (js ''manual''), opt_version = None, opt_packageName = None,
           opt_packageVersion = None \<rparr>)
   = Inr [\<lparr> res_id = js ''1'', res_title = js ''a'', res_type = js ''manual'',
             res_filePath = js ''Manual/a.html'', res_url = None, res_packageName = None,
             res_packageVersion = None, snippet = js ''<mark>a</mark>'', score = 1 \<rparr>]
   \<and> \<not> int (length (projr (fst (search (\<lambda>q. Some (\<lambda>d. Some (- 1, js ''<mark>a</mark>'')))
         (Some [\<lparr> doc_id = js ''1'', unity_version = js ''6000.1'', doc_type = js ''manual'',
                   title = js ''a'', file_path = js ''Manual/a.html'', url = None,
                   content = js ''a'', html = js ''a'', package_name = None,
                   package_version = None \<rparr>])
         \<lparr> opt_query = js ''a'', opt_limit = Some (- 1), opt_offset = None,
           opt_type = Some (js ''manual''), opt_version = None, opt_packageName = None,
           opt_packageVersion = None \<rparr>)))) \<le> - 1"
proof -
  have q: "sanitizeSearchQuery (js ''a'') = js ''a''"
    by (simp add: sanitizeSearchQuery_def js_def removeAll_def replaceUnsafe_def inSafeClass_def
        isAlnum_def isWhiteSpace_def trim_def trimStart_def SP_def)
  have t: "trim (js ''a'') = js ''a''"
    by (simp add: js_def isWhiteSpace_def trim_def trimStart_def)
  have ne: "js ''a'' \<noteq> []" "js ''manual'' \<noteq> js ''all''"
    by (simp_all add: js_def)
  show ?thesis
    by (simp add: search_def Let_def q t ne build_query_def execute_search_def selected_def truthy_def
        sql_limit_def map_filter_def to_result_def)
qed

text \<open>
  Claim C8, amended: for every search with a type filter \<open>t\<close> other than \<open>all\<close> and a
  limit \<open>L \<ge> 0\<close>, the returned list has at most \<open>L\<close> results, every result has type \<open>t\<close>
  and every score is non-negative.
\<close>

theorem search_results_bounded:
  assumes "search fts db options = (Inr results, queries)"
    and "opt_type options = Some t" and "t \<noteq> js ''all''"
    and "opt_limit options = Some L" and "0 \<le> L"
  shows "int (length results) \<le> L \<and> (\<forall>r \<in> set results. res_type r = t \<and> 0 \<le> score r)"
proof (cases "trim (sanitizeSearchQuery (opt_query options)) = []")
  case True
  with assms(1) have "results = []" by (simp add: search_def)
  with assms(5) show ?thesis by simp
next
  case False
  let ?q = "build_query (sanitizeSearchQuery (opt_query options)) options"
  from search_rows [OF assms(1) False] obtain s rows
    where rows: "execute_search fts s ?q = Inr rows" and results: "results = map to_result rows"
    by blast
  have limit: "q_limit ?q = L" and type: "q_type ?q = Some t"
    using assms(2-4) by (simp_all add: build_query_def)
  from execute_search_length [OF rows] limit assms(5) have "int (length rows) \<le> L"
    by simp
  moreover have "res_type (to_result row) = t \<and> 0 \<le> score (to_result row)" if "row \<in> set rows" for row
  proof -
    obtain d rank snip where row: "row = (d, rank, snip)" by (cases row)
    with that execute_search_selected [OF rows] have "selected ?q d" by blast
    with type have "doc_type d = t" by (simp add: selected_def)
    with row show ?thesis by (simp add: to_result_def)
  qed
  ultimately show ?thesis using results by auto
qed

theorem search_results_bounded_witness:
  "search (\<lambda>q. Some (\<lambda>d. if doc_id d = js ''3'' then None else Some (- 1, js ''<mark>a</mark>'')))
     (Some [\<lparr> doc_id = js ''1'', unity_version = js ''6000.1'', doc_type = js ''manual'',
               title = js ''a'', file_path = js ''Manual/a.html'', url = None,
               content = js ''a'', html = js ''a'', package_name = None, package_version = None \<rparr>,
            \<lparr> doc_id = js ''2'', unity_version = js ''6000.1'', doc_type = js ''script-reference'',
               title = js ''a'', file_path = js ''ScriptReference/a.html'', url = None,
               content = js ''a'', html = js ''a'', package_name = None, package_version = None \<rparr>])
     \<lparr> opt_query = js ''a'', opt_limit = Some 5, opt_offset = None,
       opt_type = Some (js ''manual''), opt_version = None, opt_packageName = None,
       opt_packageVersion = None \<rparr>
   = (Inr [\<lparr> res_id = js ''1'', res_title = js ''a'', res_type = js ''manual'',
              res_filePath = js ''Manual/a.html'', res_url = None, res_packageName = None,
              res_packageVersion = None, snippet = js ''<mark>a</mark>'', score = 1 \<rparr>],
      [\<lparr> q_match = js ''a'', q_version = js ''6000.1'', q_type = Some (js ''manual''),
         q_package_name = None, q_package_version = None, q_limit = 5, q_offset = 0 \<rparr>])
   \<and> js ''manual'' \<noteq> js ''all'' \<and> (0::int) \<le> 5
   \<and> int (length [js ''1'']) \<le> 5
   \<and> res_type \<lparr> res_id = js ''1'', res_title = js ''a'', res_type = js ''manual'',
              res_filePath = js ''Manual/a.html'', res_url = None, res_packageName = None,
              res_packageVersion = None, snippet = js ''<mark>a</mark>'', score = 1 \<rparr>
       = js ''manual''
   \<and> 0 \<le> score \<lparr> res_id = js ''1'', res_title = js ''a'', res_type = js ''manual'',
              res_filePath = js ''Manual/a.html'', res_url = None, res_packageName = None,
              res_packageVersion = None, snippet = js ''<mark>a</mark>'', score = 1 \<rparr>"
proof -
  let ?fts = "\<lambda>q::jsstring. Some (\<lambda>d. if doc_id d = js ''3'' then None else Some (- 1 :: real, js ''<mark>a</mark>''))"
  let ?options = "\<lparr> opt_query = js ''a'', opt_limit = Some 5, opt_offset = None,
       opt_type = Some (js ''manual''), opt_version = None, opt_packageName = None,
       opt_packageVersion = None \<rparr>"
  have q: "sanitizeSearchQuery (js ''a'') = js ''a''"
    by (simp add: sanitizeSearchQuery_def js_def removeAll_def replaceUnsafe_def inSafeClass_def
        isAlnum_def isWhiteSpace_def trim_def trimStart_def SP_def)
  have t: "trim (js ''a'') = js ''a''"
    by (simp add: js_def isWhiteSpace_def trim_def trimStart_def)
  have ne: "js ''a'' \<noteq> []" "js ''manual'' \<noteq> js ''all''" "js ''script-reference'' \<noteq> js ''manual''"
    "js ''1'' \<noteq> js ''3''" "js ''2'' \<noteq> js ''3''"
    by (simp_all add: js_def)
  have run: "search ?fts
     (Some [\<lparr> doc_id = js ''1'', unity_version = js ''6000.1'', doc_type = js ''manual'',
               title = js ''a'', file_path = js ''Manual/a.html'', url = None,
               content = js ''a'', html = js ''a'', package_name = None, package_version = None \<rparr>,
            \<lparr> doc_id = js ''2'', unity_version = js ''6000.1'', doc_type = js ''script-reference'',
               title = js ''a'', file_path = js ''ScriptReference/a.html'', url = None,
               content = js ''a'', html = js ''a'', package_name = None, package_version = None \<rparr>])
     ?options
   = (Inr [\<lparr> res_id = js ''1'', res_title = js ''a'', res_type = js ''manual'',
              res_filePath = js ''Manual/a.html'', res_url = None, res_packageName = None,
              res_packageVersion = None, snippet = js ''<mark>a</mark>'', score = 1 \<rparr>],
      [\<lparr> q_match = js ''a'', q_version = js ''6000.1'', q_type = Some (js ''manual''),
         q_package_name = None, q_package_version = None, q_limit = 5, q_offset = 0 \<rparr>])"
    by (simp add: search_def Let_def q t ne build_query_def execute_search_def selected_def truthy_def
        sql_limit_def map_filter_def to_result_def)
  have ty: "opt_type ?options = Some (js ''manual'')" and li: "opt_limit ?options = Some 5"
    by simp_all
  from search_results_bounded [OF run ty ne(2) li] run ne(2) show ?thesis
    by simp
qed

section \<open>Properties of the Pagination Layer\<close>

lemma substring_slice:
  assumes "0 \<le> offset" and "0 \<le> limit"
  shows "substring s offset (offset + limit) = take (nat limit) (drop (nat offset) s)"
proof (cases "offset \<le> int (length s)")
  case True
  have n: "nat (min (offset + limit) (int (length s)) - offset)
      = min (nat limit) (length (drop (nat offset) s))"
    using assms True by (auto simp: min_def)
  from assms True have "substring s offset (offset + limit)
      = take (nat (min (offset + limit) (int (length s)) - offset)) (drop (nat offset) s)"
    by (simp add: substring_def Let_def min_def max_def)
  also have "\<dots> = take (min (nat limit) (length (drop (nat offset) s))) (drop (nat offset) s)"
    by (simp only: n)
  also have "\<dots> = take (nat limit) (drop (nat offset) s)"
    by (simp add: min_def)
  finally show ?thesis .
next
  case False
  with assms show ?thesis
    by (simp add: substring_def Let_def min_def max_def)
qed

lemma read_page_slice:
  assumes "0 \<le> offset" and "0 \<le> limit"
  shows "read_page cont offset limit =
     \<lparr> contentChunk = take (nat limit) (drop (nat offset) cont),
       totalLength = int (length cont),
       hasMore = (offset + limit < int (length cont)),
       nextOffset = (if offset + limit < int (length cont) then Some (offset + limit) else None) \<rparr>"
  by (simp add: read_page_def substring_slice [OF assms])

lemma read_stored_page:
  assumes "getDocumentByPath s path (js ''6000.1'') = Some doc"
  shows "read_unity_doc parse ecb files (Some s) path (Some offset) (Some limit) =
     DocumentText doc (read_page (content doc) offset limit) (take 3 (ecb (html doc)))"
  using assms by (simp add: read_unity_doc_def)

lemma read_pages_from:
  assumes "getDocumentByPath s path (js ''6000.1'') = Some doc" and "0 < limit"
  shows "0 \<le> offset \<Longrightarrow> length (content doc) - nat offset < fuel \<Longrightarrow>
     read_pages fuel parse ecb files (Some s) path limit offset = Some (drop (nat offset) (content doc))"
proof (induction fuel arbitrary: offset)
  case 0
  then show ?case by simp
next
  case (Suc fuel)
  let ?c = "content doc"
  from assms(2) Suc.prems(1) have page: "read_page ?c offset limit =
     \<lparr> contentChunk = take (nat limit) (drop (nat offset) ?c),
       totalLength = int (length ?c),
       hasMore = (offset + limit < int (length ?c)),
       nextOffset = (if offset + limit < int (length ?c) then Some (offset + limit) else None) \<rparr>"
    by (intro read_page_slice) simp_all
  show ?case
  proof (cases "offset + limit < int (length ?c)")
    case True
    have "0 \<le> offset + limit" using assms(2) Suc.prems(1) by simp
    moreover have "length ?c - nat (offset + limit) < fuel"
      using assms(2) Suc.prems True by linarith
    ultimately have rest: "read_pages fuel parse ecb files (Some s) path limit (offset + limit)
        = Some (drop (nat (offset + limit)) ?c)"
      by (rule Suc.IH)
    have "nat (offset + limit) = nat limit + nat offset"
      using assms(2) Suc.prems(1) by (simp add: nat_add_distrib)
    then have "take (nat limit) (drop (nat offset) ?c) @ drop (nat (offset + limit)) ?c
        = drop (nat offset) ?c"
      by (metis append_take_drop_id drop_drop)
    with True rest page show ?thesis
      by (simp add: read_stored_page [OF assms(1)])
  next
    case False
    then have "length (drop (nat offset) ?c) \<le> nat limit"
      using Suc.prems(1) by simp
    then have "take (nat limit) (drop (nat offset) ?c) = drop (nat offset) ?c"
      by (rule take_all)
    with False page show ?thesis
      by (simp add: read_stored_page [OF assms(1)])
  qed
qed

text \<open>
  Claim C5: for a stored document and a page size \<open>limit > 0\<close>, the page read at an offset
  \<open>offset \<ge> 0\<close> carries \<open>content[offset : offset + limit]\<close>, \<open>hasMore\<close> is
  \<open>offset + limit < N\<close> and the next offset is \<open>offset + limit\<close>; reading from offset 0 and
  following the next offsets until \<open>hasMore\<close> is false returns, with fuel for more than
  \<open>N\<close> calls, exactly the content.
\<close>

theorem pagination_complete:
  assumes "getDocumentByPath s path (js ''6000.1'') = Some doc" and "0 < limit"
  shows "(\<forall>offset \<ge> 0.
            read_unity_doc parse ecb files (Some s) path (Some offset) (Some limit) =
              DocumentText doc
                \<lparr> contentChunk = take (nat limit) (drop (nat offset) (content doc)),
                  totalLength = int (length (content doc)),
                  hasMore = (offset + limit < int (length (content doc))),
                  nextOffset = (if offset + limit < int (length (content doc))
                                then Some (offset + limit) else None) \<rparr>
                (take 3 (ecb (html doc))))
       \<and> (\<forall>fuel > length (content doc).
            read_pages fuel parse ecb files (Some s) path limit 0 = Some (content doc))"
proof (intro conjI allI impI)
  fix offset :: int
  assume "0 \<le> offset"
  with assms(2) show "read_unity_doc parse ecb files (Some s) path (Some offset) (Some limit) =
      DocumentText doc
        \<lparr> contentChunk = take (nat limit) (drop (nat offset) (content doc)),
          totalLength = int (length (content doc)),
          hasMore = (offset + limit < int (length (content doc))),
          nextOffset = (if offset + limit < int (length (content doc))
                        then Some (offset + limit) else None) \<rparr>
        (take 3 (ecb (html doc)))"
    by (simp add: read_stored_page [OF assms(1)] read_page_slice)
next
  fix fuel :: nat
  assume "length (content doc) < fuel"
  with read_pages_from [OF assms, of 0 fuel parse ecb files]
  show "read_pages fuel parse ecb files (Some s) path limit 0 = Some (content doc)"
    by simp
qed

theorem pagination_complete_witness:
  "getDocumentByPath
     [\<lparr> doc_id = js ''1'', unity_version = js ''6000.1'', doc_type = js ''manual'',
        title = js ''X'', file_path = js ''X.html'', url = None,
        content = js ''abcdefghijklmnopqrstuvwxy'', html = js ''<p>x</p>'',
        package_name = None, package_version = None \<rparr>]
     (js ''X.html'') (js ''6000.1'')
   = Some \<lparr> doc_id = js ''1'', unity_version = js ''6000.1'', doc_type = js ''manual'',
        title = js ''X'', file_path = js ''X.html'', url = None,
        content = js ''abcdefghijklmnopqrstuvwxy'', html = js ''<p>x</p>'',
        package_name = None, package_version = None \<rparr>
   \<and> (0::int) < 10
   \<and> read_unity_doc (\<lambda>markup p. None) (\<lambda>markup. []) (\<lambda>p. Missing)
       (Some [\<lparr> doc_id = js ''1'', unity_version = js ''6000.1'', doc_type = js ''manual'',
          title = js ''X'', file_path = js ''X.html'', url = None,
          content = js ''abcdefghijklmnopqrstuvwxy'', html = js ''<p>x</p>'',
          package_name = None, package_version = None \<rparr>])
       (js ''X.html'') (Some 0) (Some 10)
     = DocumentText
         \<lparr> doc_id = js ''1'', unity_version = js ''6000.1'', doc_type = js ''manual'',
           title = js ''X'', file_path = js ''X.html'', url = None,
           content = js ''abcdefghijklmnopqrstuvwxy'', html = js ''<p>x</p>'',
           package_name = None, package_version = None \<rparr>
         \<lparr> contentChunk = js ''abcdefghij'', totalLength = 25, hasMore = True,
           nextOffset = Some 10 \<rparr> []
   \<and> read_pages 26 (\<lambda>markup p. None) (\<lambda>markup. []) (\<lambda>p. Missing)
       (Some [\<lparr> doc_id = js ''1'', unity_version = js ''6000.1'', doc_type = js ''manual'',
          title = js ''X'', file_path = js ''X.html'', url = None,
          content = js ''abcdefghijklmnopqrstuvwxy'', html = js ''<p>x</p>'',
          package_name = None, package_version = None \<rparr>])
       (js ''X.html'') 10 0
     = Some (js ''abcdefghijklmnopqrstuvwxy'')"
proof -
  let ?doc = "\<lparr> doc_id = js ''1'', unity_version = js ''6000.1'', doc_type = js ''manual'',
        title = js ''X'', file_path = js ''X.html'', url = None,
        content = js ''abcdefghijklmnopqrstuvwxy'', html = js ''<p>x</p>'',
        package_name = None, package_version = None \<rparr>"
  have found: "getDocumentByPath [?doc] (js ''X.html'') (js ''6000.1'') = Some ?doc"
    by (simp add: getDocumentByPath_def)
  have pos: "(0::int) < 10" by simp
  note main = pagination_complete [OF found pos, of "\<lambda>markup p. None" "\<lambda>markup. []" "\<lambda>p. Missing"]
  from main have "read_unity_doc (\<lambda>markup p. None) (\<lambda>markup. []) (\<lambda>p. Missing) (Some [?doc])
       (js ''X.html'') (Some 0) (Some 10)
     = DocumentText ?doc
         \<lparr> contentChunk = take (nat 10) (drop (nat 0) (content ?doc)),
           totalLength = int (length (content ?doc)),
           hasMore = (0 + 10 < int (length (content ?doc))),
           nextOffset = (if 0 + 10 < int (length (content ?doc)) then Some (0 + 10) else None) \<rparr>
         (take 3 [])"
    by (elim conjE allE [of _ "0::int"]) simp
  then have page: "read_unity_doc (\<lambda>markup p. None) (\<lambda>markup. []) (\<lambda>p. Missing) (Some [?doc])
       (js ''X.html'') (Some 0) (Some 10)
     = DocumentText ?doc
         \<lparr> contentChunk = js ''abcdefghij'', totalLength = 25, hasMore = True,
           nextOffset = Some 10 \<rparr> []"
    by (simp add: js_def)
  have "length (content ?doc) < 26" by (simp add: js_def)
  with main have all: "read_pages 26 (\<lambda>markup p. None) (\<lambda>markup. []) (\<lambda>p. Missing) (Some [?doc])
       (js ''X.html'') 10 0 = Some (js ''abcdefghijklmnopqrstuvwxy'')"
    by simp
  from found pos page all show ?thesis by blast
qed

text \<open>
  Claim C10, as stated, for every offset at or beyond the end whatever the limit: with a
  negative limit \<open>substring\<close> swaps its arguments, so the chunk is not empty and the
  response says that more content remains.
\<close>

theorem read_past_end_counterexample:
  "read_unity_doc (\<lambda>markup p. None) (\<lambda>markup. []) (\<lambda>p. Missing)
     (Some [\<lparr> doc_id = js ''1'', unity_version = js ''6000.1'', doc_type = js ''manual'',
        title = js ''X'', file_path = js ''X.html'', url = None,
        content = js ''hello'', html = js ''<p>hello</p>'',
        package_name = None, package_version = None \<rparr>])
     (js ''X.html'') (Some 5) (Some (- 3))
   = DocumentText
       \<lparr> doc_id = js ''1'', unity_version = js ''6000.1'', doc_type = js ''manual'',
         title = js ''X'', file_path = js ''X.html'', url = None,
         content = js ''hello'', html = js ''<p>hello</p>'',
         package_name = None, package_version = None \<rparr>
       \<lparr> contentChunk = js ''llo'', totalLength = 5, hasMore = True, nextOffset = Some 2 \<rparr> []
   \<and> int (length (js ''hello'')) \<le> 5 \<and> js ''llo'' \<noteq> []"
  by (simp add: read_unity_doc_def getDocumentByPath_def read_page_def substring_def js_def)

text \<open>
  Claim C10, amended: for every stored document, every offset greater than or equal to
  the length of its content and every limit that is absent or not negative, the handler
  answers with a normal response whose content chunk is empty and whose \<open>hasMore\<close> flag
  is false; it is not an error.
\<close>

theorem read_past_end:
  assumes "getDocumentByPath s path (js ''6000.1'') = Some doc"
    and "int (length (content doc)) \<le> offset"
    and "case limit_arg of None \<Rightarrow> True | Some l \<Rightarrow> 0 \<le> l"
  shows "read_unity_doc parse ecb files (Some s) path (Some offset) limit_arg =
     DocumentText doc
       \<lparr> contentChunk = [], totalLength = int (length (content doc)), hasMore = False,
         nextOffset = None \<rparr>
       (take 3 (ecb (html doc)))"
proof -
  define limit where "limit = (case limit_arg of None \<Rightarrow> 2000 | Some l \<Rightarrow> l)"
  with assms(3) have limit: "0 \<le> limit" by (cases limit_arg) simp_all
  from assms(2) have offset: "0 \<le> offset" by simp
  have "read_page (content doc) offset limit =
     \<lparr> contentChunk = [], totalLength = int (length (content doc)), hasMore = False,
       nextOffset = None \<rparr>"
    using assms(2) limit by (simp add: read_page_slice [OF offset limit])
  with assms(1) show ?thesis
    by (simp add: read_unity_doc_def limit_def)
qed

theorem read_past_end_witness:
  "getDocumentByPath
     [\<lparr> doc_id = js ''1'', unity_version = js ''6000.1'', doc_type = js ''manual'',
        title = js ''X'', file_path = js ''X.html'', url = None,
        content = js ''hello'', html = js ''<p>hello</p>'',
        package_name = None, package_version = None \<rparr>]
     (js ''X.html'') (js ''6000.1'')
   = Some \<lparr> doc_id = js ''1'', unity_version = js ''6000.1'', doc_type = js ''manual'',
        title = js ''X'', file_path = js ''X.html'', url = None,
        content = js ''hello'', html = js ''<p>hello</p>'',
        package_name = None, package_version = None \<rparr>
   \<and> int (length (js ''hello'')) \<le> 7
   \<and> read_unity_doc (\<lambda>markup p. None) (\<lambda>markup. []) (\<lambda>p. Missing)
       (Some [\<lparr> doc_id = js ''1'', unity_version = js ''6000.1'', doc_type = js ''manual'',
          title = js ''X'', file_path = js ''X.html'', url = None,
          content = js ''hello'', html = js ''<p>hello</p>'',
          package_name = None, package_version = None \<rparr>])
       (js ''X.html'') (Some 7) None
     = DocumentText
         \<lparr> doc_id = js ''1'', unity_version = js ''6000.1'', doc_type = js ''manual'',
           title = js ''X'', file_path = js ''X.html'', url = None,
           content = js ''hello'', html = js ''<p>hello</p>'',
           package_name = None, package_version = None \<rparr>
         \<lparr> contentChunk = [], totalLength = 5, hasMore = False, nextOffset = None \<rparr> []"
proof -
  let ?doc = "\<lparr> doc_id = js ''1'', unity_version = js ''6000.1'', doc_type = js ''manual'',
        title = js ''X'', file_path = js ''X.html'', url = None,
        content = js ''hello'', html = js ''<p>hello</p>'',
        package_name = None, package_version = None \<rparr>"
  have found: "getDocumentByPath [?doc] (js ''X.html'') (js ''6000.1'') = Some ?doc"
    by (simp add: getDocumentByPath_def)
  have past: "int (length (content ?doc)) \<le> 7" by (simp add: js_def)
  have lim: "case None :: int option of None \<Rightarrow> True | Some l \<Rightarrow> 0 \<le> l" by simp
  from read_past_end [OF found past lim, of "\<lambda>markup p. None" "\<lambda>markup. []" "\<lambda>p. Missing"]
    found past show ?thesis by (simp add: js_def)
qed

section \<open>Properties of the Document Store\<close>

lemma type_check_closed: "type_check t \<Longrightarrow> t \<in> closed_types"
  by (auto simp: type_check_def closed_types_def)

lemma insert_document_accepts:
  "insert_document s d = Inr s' \<Longrightarrow> type_check (doc_type d)"
  by (auto simp: insert_document_def split: if_splits)

lemma insert_or_replace_document_accepts:
  "insert_or_replace_document s d = Inr s' \<Longrightarrow> type_check (doc_type d)"
  by (auto simp: insert_or_replace_document_def split: if_splits)

lemma update_documents_accepts:
  "update_documents s P f = Inr s' \<Longrightarrow> x \<in> set s \<Longrightarrow> P x \<Longrightarrow> type_check (doc_type (f x))"
  by (auto simp: update_documents_def Let_def list_ex_iff split: if_splits)

text \<open>
  Claim C9: a document that an insert, an insert-or-replace or an update accepts has a
  type from the closed set, and a write that carries a type outside the closed set is
  rejected by the type check at write time.
\<close>

theorem write_path_type_validated:
  "(insert_document s d = Inr s' \<longrightarrow> doc_type d \<in> closed_types)
   \<and> (insert_or_replace_document s d = Inr s' \<longrightarrow> doc_type d \<in> closed_types)
   \<and> (update_documents s P f = Inr s' \<longrightarrow> (\<forall>x \<in> set s. P x \<longrightarrow> doc_type (f x) \<in> closed_types))
   \<and> (doc_type d \<notin> closed_types \<longrightarrow>
        insert_document s d = Inl ConstraintCheck
        \<and> insert_or_replace_document s d = Inl ConstraintCheck)
   \<and> ((\<exists>x \<in> set s. P x \<and> doc_type (f x) \<notin> closed_types) \<longrightarrow>
        update_documents s P f = Inl ConstraintCheck)"
proof (intro conjI impI ballI)
  assume "insert_document s d = Inr s'"
  then show "doc_type d \<in> closed_types"
    by (intro type_check_closed insert_document_accepts)
next
  assume "insert_or_replace_document s d = Inr s'"
  then show "doc_type d \<in> closed_types"
    by (intro type_check_closed insert_or_replace_document_accepts)
next
  fix x
  assume "update_documents s P f = Inr s'" "x \<in> set s" "P x"
  then show "doc_type (f x) \<in> closed_types"
    by (intro type_check_closed update_documents_accepts)
next
  assume "doc_type d \<notin> closed_types"
  then have "\<not> type_check (doc_type d)" using type_check_closed by blast
  then show "insert_document s d = Inl ConstraintCheck"
    and "insert_or_replace_document s d = Inl ConstraintCheck"
    by (simp_all add: insert_document_def insert_or_replace_document_def)
next
  assume "\<exists>x \<in> set s. P x \<and> doc_type (f x) \<notin> closed_types"
  then have "\<exists>x \<in> set s. P x \<and> \<not> type_check (doc_type (f x))"
    using type_check_closed by blast
  then show "update_documents s P f = Inl ConstraintCheck"
    by (simp add: update_documents_def list_ex_iff)
qed

theorem write_path_type_validated_witness:
  "insert_document []
     \<lparr> doc_id = js ''test-1'', unity_version = js ''6000.0'', doc_type = js ''manual'',
       title = js ''Test'', file_path = js ''/test.html'', url = None, content = js ''content'',
       html = js ''<html>'', package_name = None, package_version = None \<rparr>
   = Inr [\<lparr> doc_id = js ''test-1'', unity_version = js ''6000.0'', doc_type = js ''manual'',
       title = js ''Test'', file_path = js ''/test.html'', url = None, content = js ''content'',
       html = js ''<html>'', package_name = None, package_version = None \<rparr>]
   \<and> js ''manual'' \<in> closed_types
   \<and> js ''invalid'' \<notin> closed_types
   \<and> insert_document []
     \<lparr> doc_id = js ''test-1'', unity_version = js ''6000.0'', doc_type = js ''invalid'',
       title = js ''Test'', file_path = js ''/test.html'', url = None, content = js ''content'',
       html = js ''<html>'', package_name = None, package_version = None \<rparr>
     = Inl ConstraintCheck
   \<and> insert_or_replace_document []
     \<lparr> doc_id = js ''test-1'', unity_version = js ''6000.0'', doc_type = js ''invalid'',
       title = js ''Test'', file_path = js ''/test.html'', url = None, content = js ''content'',
       html = js ''<html>'', package_name = None, package_version = None \<rparr>
     = Inl ConstraintCheck
   \<and> update_documents
       [\<lparr> doc_id = js ''test-1'', unity_version = js ''6000.0'', doc_type = js ''manual'',
          title = js ''Test'', file_path = js ''/test.html'', url = None, content = js ''content'',
          html = js ''<html>'', package_name = None, package_version = None \<rparr>]
       (\<lambda>x. doc_id x = js ''test-1'') (\<lambda>x. x\<lparr>doc_type := js ''invalid''\<rparr>)
     = Inl ConstraintCheck"
proof -
  let ?good = "\<lparr> doc_id = js ''test-1'', unity_version = js ''6000.0'', doc_type = js ''manual'',
       title = js ''Test'', file_path = js ''/test.html'', url = None, content = js ''content'',
       html = js ''<html>'', package_name = None, package_version = None \<rparr>"
  let ?bad = "?good\<lparr>doc_type := js ''invalid''\<rparr>"
  let ?P = "\<lambda>x. doc_id x = js ''test-1''"
  let ?f = "\<lambda>x :: document_row. x\<lparr>doc_type := js ''invalid''\<rparr>"
  have accepted: "insert_document [] ?good = Inr [?good]"
    by (simp add: insert_document_def type_check_def)
  have invalid: "js ''invalid'' \<notin> closed_types"
    by (simp add: closed_types_def js_def)
  then have bad: "doc_type ?bad \<notin> closed_types" by simp
  have sel: "\<exists>x \<in> set [?good]. ?P x \<and> doc_type (?f x) \<notin> closed_types"
    using invalid by simp
  from write_path_type_validated [of "[]" ?good "[?good]" ?P ?f] accepted
  have 1: "js ''manual'' \<in> closed_types" by simp
  from write_path_type_validated [of "[]" ?bad "[]" ?P ?f] bad
  have 2: "insert_document [] ?bad = Inl ConstraintCheck"
    and 3: "insert_or_replace_document [] ?bad = Inl ConstraintCheck"
    by blast+
  from write_path_type_validated [of "[?good]" ?good "[]" ?P ?f] sel
  have 4: "update_documents [?good] ?P ?f = Inl ConstraintCheck"
    by blast
  from accepted 1 invalid 2 3 4 show ?thesis by simp
qed

section \<open>Properties of the Document Indexer\<close>

lemma delete_version_idem: "delete_version (delete_version s v) v = delete_version s v"
  by (simp add: delete_version_def)

lemma delete_version_append:
  "\<forall>d \<in> set new. unity_version d = v \<Longrightarrow>
     delete_version (delete_version s v @ new) v = delete_version s v"
  by (simp add: delete_version_def filter_empty_conv)

lemma distinct_delete_version:
  "distinct (map doc_id s) \<Longrightarrow> distinct (map doc_id (delete_version s v))"
  by (simp add: delete_version_def distinct_map_filter)

lemma processFile_appends:
  "\<exists>new. documents (processFile parse hash v rel contents st) = documents st @ new
         \<and> (\<forall>d \<in> set new. unity_version d = v)"
  by (auto simp: processFile_def insert_document_def split: option.splits sum.splits if_splits)

lemma processFile_distinct:
  "distinct (map doc_id (documents st)) \<Longrightarrow>
     distinct (map doc_id (documents (processFile parse hash v rel contents st)))"
  by (auto simp: processFile_def insert_document_def split: option.splits sum.splits if_splits)

lemma process_appends:
  "\<exists>new. documents (snd (processEntries parse hash v dir es st)) = documents st @ new
         \<and> (\<forall>d \<in> set new. unity_version d = v)"
  "\<exists>new. documents (snd (processDirectory parse hash v dir listing st)) = documents st @ new
         \<and> (\<forall>d \<in> set new. unity_version d = v)"
proof (induction parse hash v dir es st and parse hash v dir listing st
    rule: processEntries_processDirectory.induct)
  case (1 parse hash version dir st)
  show ?case by simp
next
  case (2 parse hash version dir name listing es st)
  obtain e st' where sub: "processDirectory parse hash version (joinPath dir name) listing st = (e, st')"
    by (cases "processDirectory parse hash version (joinPath dir name) listing st")
  with 2(1) obtain new1 where new1: "documents st' = documents st @ new1"
      "\<forall>d \<in> set new1. unity_version d = version"
    by auto
  show ?case
  proof (cases e)
    case None
    from 2(2) [OF sub [symmetric] None] obtain new2 where
      "documents (snd (processEntries parse hash version dir es st')) = documents st' @ new2"
      "\<forall>d \<in> set new2. unity_version d = version"
      by blast
    with new1 None sub show ?thesis
      by (intro exI [of _ "new1 @ new2"]) auto
  next
    case (Some err)
    with new1 sub show ?thesis by auto
  qed
next
  case (3 parse hash version dir name contents es st)
  show ?case
  proof (cases "endsWith name (js ''.html'')")
    case True
    let ?st = "processFile parse hash version (joinPath dir name) contents st"
    from processFile_appends obtain new1 where new1: "documents ?st = documents st @ new1"
        "\<forall>d \<in> set new1. unity_version d = version"
      by blast
    from 3(1) True obtain new2 where
      "documents (snd (processEntries parse hash version dir es ?st)) = documents ?st @ new2"
      "\<forall>d \<in> set new2. unity_version d = version"
      by blast
    with new1 True show ?thesis
      by (intro exI [of _ "new1 @ new2"]) auto
  next
    case False
    with 3(2) show ?thesis by simp
  qed
next
  case (4 parse hash version dir st)
  show ?case by simp
next
  case (5 parse hash version dir es st)
  then show ?case by simp
qed

lemma process_distinct:
  "distinct (map doc_id (documents st)) \<Longrightarrow>
     distinct (map doc_id (documents (snd (processEntries parse hash v dir es st))))"
  "distinct (map doc_id (documents st)) \<Longrightarrow>
     distinct (map doc_id (documents (snd (processDirectory parse hash v dir listing st))))"
proof (induction parse hash v dir es st and parse hash v dir listing st
    rule: processEntries_processDirectory.induct)
  case (1 parse hash version dir st)
  then show ?case by simp
next
  case (2 parse hash version dir name listing es st)
  obtain e st' where sub: "processDirectory parse hash version (joinPath dir name) listing st = (e, st')"
    by (cases "processDirectory parse hash version (joinPath dir name) listing st")
  with 2(1) 2(3) have d: "distinct (map doc_id (documents st'))" by simp
  show ?case
  proof (cases e)
    case None
    with 2(2) sub d show ?thesis by simp
  next
    case (Some err)
    with sub d show ?thesis by simp
  qed
next
  case (3 parse hash version dir name contents es st)
  then show ?case by (simp add: processFile_distinct)
next
  case (4 parse hash version dir st)
  then show ?case by simp
next
  case (5 parse hash version dir es st)
  then show ?case by simp
qed

lemma index_docs_documents:
  "\<exists>new. documents (snd (index_docs parse hash v docsDir ok s)) = delete_version s v @ new
         \<and> (\<forall>d \<in> set new. unity_version d = v)"
proof -
  let ?st = "\<lparr> documents = delete_version s v, processedCount = 0, errorCount = 0 \<rparr>"
  from process_appends(2) [of parse hash v "[]" docsDir ?st]
  show ?thesis
    by (auto simp: index_docs_def split: prod.splits option.splits)
qed

lemma index_docs_purge_again:
  "delete_version (documents (snd (index_docs parse hash v docsDir ok s))) v = delete_version s v"
  using index_docs_documents [of parse hash v docsDir ok s]
  by (auto simp: delete_version_append)

lemma index_docs_distinct:
  assumes "distinct (map doc_id s)"
  shows "distinct (map doc_id (documents (snd (index_docs parse hash v docsDir ok s))))"
proof -
  let ?st = "\<lparr> documents = delete_version s v, processedCount = 0, errorCount = 0 \<rparr>"
  have "distinct (map doc_id (documents ?st))"
    using assms by (simp add: distinct_delete_version)
  from process_distinct(2) [OF this, of parse hash v "[]" docsDir]
  show ?thesis
    by (auto simp: index_docs_def split: prod.splits option.splits)
qed

text \<open>
  Claim C6: running the indexer a second time on the same directory for the same version
  ends in the same outcome and the same table as the first run, so the number of
  documents of that version is the same, and no two rows share an id.
\<close>

theorem reindex_idempotent:
  assumes "distinct (map doc_id s)"
  shows "index_docs parse hash v docsDir ok (documents (snd (index_docs parse hash v docsDir ok s)))
           = index_docs parse hash v docsDir ok s
       \<and> length (filter (\<lambda>d. unity_version d = v)
           (documents (snd (index_docs parse hash v docsDir ok
              (documents (snd (index_docs parse hash v docsDir ok s)))))))
         = length (filter (\<lambda>d. unity_version d = v)
             (documents (snd (index_docs parse hash v docsDir ok s))))
       \<and> distinct (map doc_id (documents (snd (index_docs parse hash v docsDir ok
              (documents (snd (index_docs parse hash v docsDir ok s)))))))"
proof -
  have again: "index_docs parse hash v docsDir ok (documents (snd (index_docs parse hash v docsDir ok s)))
      = index_docs parse hash v docsDir ok s"
    unfolding index_docs_def [of parse hash v docsDir ok "documents (snd (index_docs parse hash v docsDir ok s))"]
    unfolding index_docs_purge_again
    by (simp add: index_docs_def)
  with index_docs_distinct [OF assms] show ?thesis by simp
qed

theorem reindex_idempotent_witness:
  "distinct (map doc_id
     [\<lparr> doc_id = js ''old'', unity_version = js ''6000.1'', doc_type = js ''manual'',
        title = js ''Old'', file_path = js ''Manual/old.html'', url = None,
        content = js ''old'', html = js ''<p>old</p>'', package_name = None,
        package_version = None \<rparr>])
   \<and> index_docs (\<lambda>markup p. Some \<lparr> parsed_title = p, parsed_content = markup,
                                   parsed_type = js ''manual'' \<rparr>) (\<lambda>x. x) (js ''6000.1'')
       (Some [File (js ''a.html'') (Some (js ''<h1>A</h1>''))]) True
       (documents (snd (index_docs (\<lambda>markup p. Some \<lparr> parsed_title = p, parsed_content = markup,
                                   parsed_type = js ''manual'' \<rparr>) (\<lambda>x. x) (js ''6000.1'')
          (Some [File (js ''a.html'') (Some (js ''<h1>A</h1>''))]) True
          [\<lparr> doc_id = js ''old'', unity_version = js ''6000.1'', doc_type = js ''manual'',
             title = js ''Old'', file_path = js ''Manual/old.html'', url = None,
             content = js ''old'', html = js ''<p>old</p>'', package_name = None,
             package_version = None \<rparr>])))
     = index_docs (\<lambda>markup p. Some \<lparr> parsed_title = p, parsed_content = markup,
                                   parsed_type = js ''manual'' \<rparr>) (\<lambda>x. x) (js ''6000.1'')
         (Some [File (js ''a.html'') (Some (js ''<h1>A</h1>''))]) True
         [\<lparr> doc_id = js ''old'', unity_version = js ''6000.1'', doc_type = js ''manual'',
            title = js ''Old'', file_path = js ''Manual/old.html'', url = None,
            content = js ''old'', html = js ''<p>old</p>'', package_name = None,
            package_version = None \<rparr>]"
proof -
  let ?s = "[\<lparr> doc_id = js ''old'', unity_version = js ''6000.1'', doc_type = js ''manual'',
        title = js ''Old'', file_path = js ''Manual/old.html'', url = None,
        content = js ''old'', html = js ''<p>old</p>'', package_name = None,
        package_version = None \<rparr>]"
  have h: "distinct (map doc_id ?s)" by simp
  from h reindex_idempotent [OF h] show ?thesis by blast
qed

text \<open>
  Claim C1 at a failing input. The table holds one document of version 6000.1 and one of
  version 2022.3; the documentation directory holds one page and a subdirectory that
  cannot be read. The run fails, and the table it leaves behind has lost the old
  document of version 6000.1 and gained the new page: the purge and the insertions
  before the failure stay.
\<close>

theorem index_docs_failed_run:
  "index_docs (\<lambda>markup p. Some \<lparr> parsed_title = p, parsed_content = markup,
                                  parsed_type = js ''manual'' \<rparr>) (\<lambda>x. x) (js ''6000.1'')
     (Some [File (js ''a.html'') (Some (js ''<h1>A</h1>'')), Dir (js ''sub'') None]) True
     [\<lparr> doc_id = js ''old'', unity_version = js ''6000.1'', doc_type = js ''manual'',
        title = js ''Old'', file_path = js ''Manual/old.html'', url = None,
        content = js ''old'', html = js ''<p>old</p>'', package_name = None,
        package_version = None \<rparr>,
      \<lparr> doc_id = js ''lts'', unity_version = js ''2022.3'', doc_type = js ''manual'',
        title = js ''Lts'', file_path = js ''Manual/lts.html'', url = None,
        content = js ''lts'', html = js ''<p>lts</p>'', package_name = None,
        package_version = None \<rparr>]
   = (Some ReaddirFailed,
      \<lparr> documents =
          [\<lparr> doc_id = js ''lts'', unity_version = js ''2022.3'', doc_type = js ''manual'',
             title = js ''Lts'', file_path = js ''Manual/lts.html'', url = None,
             content = js ''lts'', html = js ''<p>lts</p>'', package_name = None,
             package_version = None \<rparr>,
           \<lparr> doc_id = js ''6000.1:a.html'', unity_version = js ''6000.1'',
             doc_type = js ''manual'', title = js ''a.html'', file_path = js ''a.html'',
             url = Some (js ''unity://6000.1/a.html''), content = js ''<h1>A</h1>'',
             html = js ''<h1>A</h1>'', package_name = None, package_version = None \<rparr>],
        processedCount = 1, errorCount = 0 \<rparr>)"
proof -
  have ne: "js ''2022.3'' \<noteq> js ''6000.1''" "js ''6000.1:a.html'' \<noteq> js ''lts''"
    by (simp_all add: js_def)
  have ends: "endsWith (js ''a.html'') (js ''.html'')"
    by (simp add: endsWith_def js_def)
  have cat: "js ''6000.1'' @ js '':'' @ js ''a.html'' = js ''6000.1:a.html''"
    "js ''unity://'' @ js ''6000.1'' @ js ''/'' @ js ''a.html'' = js ''unity://6000.1/a.html''"
    by (simp_all add: js_def)
  show ?thesis
    by (simp add: index_docs_def delete_version_def ne ends cat joinPath_def processFile_def
        insert_document_def type_check_def)
qed

section \<open>Properties of the Section Extractor\<close>

subsection \<open>Document order\<close>

lemma documentOrder_append: "documentOrder (xs @ ys) = documentOrder xs @ documentOrder ys"
  by (induction xs rule: documentOrder.induct) simp_all

lemma documentOrder_plug:
  "documentOrder (plug frames inner)
     = beforeNodes frames inner @ documentOrder inner @ documentOrder (followingNodes frames)"
  by (induction frames inner rule: plug.induct) (simp_all add: documentOrder_append)

lemma headingCount_Element:
  "headingCount (Element tag children # ns) =
     (if isHeadingTag tag then 1 else 0) + headingCount children + headingCount ns"
  by (simp add: headingCount_def)

lemma headingCount_TextNode: "headingCount (TextNode t # ns) = headingCount ns"
  by (simp add: headingCount_def)

lemma headingCount_Nil: "headingCount [] = 0"
  by (simp add: headingCount_def)

lemma beforeNodes_headings:
  "length (filter isHeading (beforeNodes frames inner)) = frameHeadings frames"
  by (induction frames inner rule: beforeNodes.induct) (simp_all add: headingCount_def)

lemma frameHeadings_cutRight: "frameHeadings (map cutRight frames) = frameHeadings frames"
  by (induction frames rule: frameHeadings.induct) simp_all

lemma followingNodes_cutRight: "followingNodes (map cutRight frames) = []"
  by (induction frames rule: frameHeadings.induct) simp_all

lemma headingCount_cut:
  "headingCount (plug (map cutRight frames) before) = frameHeadings frames + headingCount before"
  by (simp add: headingCount_def documentOrder_plug followingNodes_cutRight beforeNodes_headings
      frameHeadings_cutRight)

lemma afterHeading_at:
  assumes "isHeading h"
  shows "afterHeading (length (filter isHeading xs)) (xs @ h # ys)
           = Some (h, drop (length (documentOrder (childrenOf h))) ys)"
  using assms by (induction xs) simp_all

lemma ownText_documentOrder: "concat (map ownText (documentOrder ns)) = concat (map text_of ns)"
  by (induction ns rule: documentOrder.induct) simp_all

lemma set_documentOrder: "set ns \<subseteq> set (documentOrder ns)"
  by (induction ns rule: documentOrder.induct) auto

lemma documentOrder_head: "isHeading n \<Longrightarrow> \<exists>more. documentOrder (n # ns) = n # more"
  by (cases n) simp_all

text \<open>The text strictly between, for a section that lies flat.\<close>

lemma textStrictlyBetween_flat:
  assumes tag: "isHeadingTag tag"
    and body: "list_all (\<lambda>n. \<not> (isHeading n \<and> levelOf n \<le> levelOf (Element tag children)))
                 (documentOrder body)"
    and ends: "sectionEnds frames rest (levelOf (Element tag children))"
  shows "textStrictlyBetween (plug frames (before @ [Element tag children] @ body @ rest))
           (frameHeadings frames + headingCount before)
         = concat (map text_of body)"
proof -
  let ?h = "Element tag children"
  let ?inner = "before @ [?h] @ body @ rest"
  let ?xs = "beforeNodes frames ?inner @ documentOrder before"
  let ?tail = "documentOrder (rest @ followingNodes frames)"
  let ?stop = "\<lambda>n. \<not> (isHeading n \<and> levelOf n \<le> levelOf ?h)"
  have order: "documentOrder (plug frames ?inner)
      = ?xs @ ?h # (documentOrder children @ documentOrder body @ ?tail)"
    by (simp add: documentOrder_plug documentOrder_append)
  have count: "length (filter isHeading ?xs) = frameHeadings frames + headingCount before"
    by (simp add: beforeNodes_headings headingCount_def)
  have h: "isHeading ?h" using tag by simp
  have "afterHeading (frameHeadings frames + headingCount before) (documentOrder (plug frames ?inner))
      = Some (?h, documentOrder body @ ?tail)"
    unfolding order count [symmetric] afterHeading_at [OF h] by simp
  moreover have "takeWhile ?stop ?tail = []"
  proof (cases "rest @ followingNodes frames")
    case Nil
    then show ?thesis by simp
  next
    case (Cons b more)
    with ends have b: "isHeading b" "levelOf b \<le> levelOf ?h"
      by (simp_all add: sectionEnds_def)
    from documentOrder_head [OF b(1), of more] obtain more'
      where "documentOrder (b # more) = b # more'" by blast
    with b Cons show ?thesis by simp
  qed
  moreover have "\<forall>n \<in> set (documentOrder body). ?stop n"
    using body by (simp add: list_all_iff)
  ultimately show ?thesis
    by (simp add: textStrictlyBetween_def takeWhile_append2 ownText_documentOrder)
qed

subsection \<open>White space\<close>

lemma filter_trimStart:
  "filter (\<lambda>c. \<not> isWhiteSpace c) (trimStart s) = filter (\<lambda>c. \<not> isWhiteSpace c) s"
  unfolding trimStart_def by (induction s) simp_all

lemma filter_trimEnd:
  "filter (\<lambda>c. \<not> isWhiteSpace c) (trimEnd s) = filter (\<lambda>c. \<not> isWhiteSpace c) s"
  by (induction s) (auto split: list.splits)

lemma filter_trim: "filter (\<lambda>c. \<not> isWhiteSpace c) (trim s) = filter (\<lambda>c. \<not> isWhiteSpace c) s"
  by (simp add: trim_def filter_trimEnd filter_trimStart)

lemma newline_isWhiteSpace: "filter (\<lambda>c. \<not> isWhiteSpace c) (js ''\<newline>'') = []"
  by (simp add: js_def isWhiteSpace_def)

lemma filter_lineOf:
  assumes "blankText n"
  shows "filter (\<lambda>c. \<not> isWhiteSpace c) (lineOf n) = filter (\<lambda>c. \<not> isWhiteSpace c) (text_of n)"
proof (cases n)
  case (TextNode t)
  with assms show ?thesis
    by (simp add: list_all_iff filter_empty_conv)
next
  case (Element tag children)
  let ?t = "trim (text_of (Element tag children))"
  have "filter (\<lambda>c. \<not> isWhiteSpace c) (lineOf n) = filter (\<lambda>c. \<not> isWhiteSpace c) ?t"
    unfolding Element using newline_isWhiteSpace by (cases ?t) simp_all
  then show ?thesis
    unfolding Element by (simp only: filter_trim)
qed

lemma filter_lines:
  "list_all blankText body \<Longrightarrow>
     filter (\<lambda>c. \<not> isWhiteSpace c) (concat (map lineOf body))
       = filter (\<lambda>c. \<not> isWhiteSpace c) (concat (map text_of body))"
  by (induction body) (simp_all add: filter_lineOf)

subsection \<open>The headings that the extractor selects\<close>

lemma length_selectHeadings: "length (selectHeadings p k ns) = headingCount ns"
  by (induction p k ns rule: selectHeadings.induct)
    (simp_all add: headingCount_Element headingCount_TextNode headingCount_Nil)

lemma selectHeadings_append:
  "\<exists>hs. selectHeadings p k (xs @ ys) = hs @ selectHeadings p (k + length xs) ys
        \<and> map fst hs = map fst (selectHeadings p k xs)"
proof (induction xs arbitrary: k)
  case Nil
  show ?case by (intro exI [of _ "[]"]) simp
next
  case (Cons x xs)
  from Cons.IH [of "Suc k"] obtain hs
    where hs: "selectHeadings p (Suc k) (xs @ ys) = hs @ selectHeadings p (Suc k + length xs) ys"
      and same: "map fst hs = map fst (selectHeadings p (Suc k) xs)"
    by blast
  show ?case
  proof (cases x)
    case (TextNode t)
    with hs same show ?thesis by simp
  next
    case (Element tag children)
    let ?own = "if isHeadingTag tag
                then [((p @ [k], Element tag children), elementSiblings p (Suc k) (xs @ ys))] else []"
    have "selectHeadings p k ((x # xs) @ ys)
        = (?own @ selectHeadings (p @ [k]) 0 children @ hs) @ selectHeadings p (k + length (x # xs)) ys"
      using Element hs by simp
    moreover have "map fst (?own @ selectHeadings (p @ [k]) 0 children @ hs)
        = map fst (selectHeadings p k (x # xs))"
      using Element same by simp
    ultimately show ?thesis by blast
  qed
qed

lemma selectHeadings_append_length:
  "\<exists>hs. selectHeadings p k (xs @ ys) = hs @ selectHeadings p (k + length xs) ys
        \<and> length hs = headingCount xs"
proof -
  from selectHeadings_append [of p k xs ys] obtain hs
    where hs: "selectHeadings p k (xs @ ys) = hs @ selectHeadings p (k + length xs) ys"
      and same: "map fst hs = map fst (selectHeadings p k xs)"
    by blast
  from same have "length hs = length (selectHeadings p k xs)"
    by (rule map_eq_imp_length_eq)
  with hs show ?thesis by (auto simp: length_selectHeadings)
qed

lemma selectHeadings_positions:
  "e \<in> set (selectHeadings p k ns) \<Longrightarrow> \<exists>j x. fst (fst e) = p @ j # x \<and> k \<le> j"
proof (induction p k ns rule: selectHeadings.induct)
  case (1 p i)
  then show ?case by simp
next
  case (2 p i t ns)
  from "2.IH" [OF 2(2) [simplified]] show ?case by auto
next
  case (3 p i tag children ns)
  from 3(3) consider
      "isHeadingTag tag \<and> e = ((p @ [i], Element tag children), elementSiblings p (Suc i) ns)"
    | "e \<in> set (selectHeadings (p @ [i]) 0 children)"
    | "e \<in> set (selectHeadings p (Suc i) ns)"
    by (auto split: if_splits)
  then show ?case
  proof cases
    case 1
    then show ?thesis by simp
  next
    case 2
    from 3(1) [OF this] obtain j x where "fst (fst e) = (p @ [i]) @ j # x" by blast
    then have "fst (fst e) = p @ i # (j # x)" by simp
    then show ?thesis by blast
  next
    case 3
    from "3.IH"(2) [OF this] show ?thesis by auto
  qed
qed

lemma selectHeadings_nodes:
  "e \<in> set (selectHeadings p k ns) \<Longrightarrow>
     isHeading (snd (fst e)) \<and> snd (fst e) \<in> set (documentOrder ns)"
  by (induction p k ns rule: selectHeadings.induct) (auto split: if_splits)

lemma selectHeadings_plug:
  "\<exists>A B q. selectHeadings p 0 (plug frames inner) = A @ selectHeadings q 0 inner @ B
          \<and> length A = frameHeadings frames
          \<and> (\<exists>r. q = p @ r)
          \<and> (\<forall>e \<in> set B. \<forall>j. fst (fst e) \<noteq> q @ [j])"
proof (induction frames inner arbitrary: p rule: plug.induct)
  case (1 inner)
  have "selectHeadings p 0 (plug [] inner) = [] @ selectHeadings p 0 inner @ []" by simp
  then show ?case by force
next
  case (2 left tag right frames inner)
  let ?own = "if isHeadingTag tag
              then [((p @ [length left], Element tag (plug frames inner)),
                     elementSiblings p (Suc (length left)) right)] else []"
  let ?right = "selectHeadings p (Suc (length left)) right"
  from selectHeadings_append_length [of p 0 left "Element tag (plug frames inner) # right"] obtain hs
    where hs: "selectHeadings p 0 (left @ Element tag (plug frames inner) # right)
                 = hs @ selectHeadings p (length left) (Element tag (plug frames inner) # right)"
      and len: "length hs = headingCount left"
    by auto
  from 2 [of "p @ [length left]"] obtain A B q r
    where inner: "selectHeadings (p @ [length left]) 0 (plug frames inner)
                    = A @ selectHeadings q 0 inner @ B"
      and lenA: "length A = frameHeadings frames"
      and q: "q = (p @ [length left]) @ r"
      and B: "\<forall>e \<in> set B. \<forall>j. fst (fst e) \<noteq> q @ [j]"
    by blast
  have "selectHeadings p 0 (plug ((left, tag, right) # frames) inner)
      = (hs @ ?own @ A) @ selectHeadings q 0 inner @ (B @ ?right)"
    using hs inner by simp
  moreover have "length (hs @ ?own @ A) = frameHeadings ((left, tag, right) # frames)"
    using len lenA by simp
  moreover have "\<exists>r'. q = p @ r'"
    using q by simp
  moreover have "\<forall>e \<in> set (B @ ?right). \<forall>j. fst (fst e) \<noteq> q @ [j]"
  proof (intro ballI allI)
    fix e j
    assume "e \<in> set (B @ ?right)"
    then consider "e \<in> set B" | "e \<in> set ?right" by auto
    then show "fst (fst e) \<noteq> q @ [j]"
    proof cases
      case 1
      with B show ?thesis by blast
    next
      case 2
      from selectHeadings_positions [OF this] obtain j' x
        where "fst (fst e) = p @ j' # x" "Suc (length left) \<le> j'" by blast
      with q show ?thesis by auto
    qed
  qed
  ultimately show ?case by blast
qed

subsection \<open>The walk over the following siblings\<close>

lemma elementSiblings_append:
  "elementSiblings q k (xs @ ys) = elementSiblings q k xs @ elementSiblings q (k + length xs) ys"
  by (induction q k xs rule: elementSiblings.induct) simp_all

lemma collectContent_body:
  assumes "\<forall>n \<in> set body. \<not> isHeading n"
    and "\<And>j nd. j < k + length body \<Longrightarrow> \<not> isNode (q @ [j], nd) boundary"
  shows "collectContent boundary (elementSiblings q k body @ following) acc
           = collectContent boundary following (acc @ concat (map lineOf body))"
  using assms
proof (induction body arbitrary: k acc)
  case Nil
  show ?case by simp
next
  case (Cons n body)
  have rest: "collectContent boundary (elementSiblings q (Suc k) body @ following) acc'
      = collectContent boundary following (acc' @ concat (map lineOf body))" for acc'
    using Cons.prems by (intro Cons.IH) simp_all
  show ?case
  proof (cases n)
    case (TextNode t)
    with rest show ?thesis by simp
  next
    case (Element tag children)
    have "\<not> isNode (q @ [k], Element tag children) boundary"
      using Cons.prems(2) [of k] by simp
    moreover have "\<not> isHeadingTag tag"
      using Cons.prems(1) Element by simp
    ultimately show ?thesis
      unfolding Element
      by (cases "trim (text_of (Element tag children))") (simp_all add: rest Let_def del: text_of.simps)
  qed
qed

lemma collectContent_stops:
  assumes "following = [] \<or> (\<exists>pos b more. following = (pos, b) # more \<and> isHeading b)"
  shows "collectContent boundary following acc = acc"
  using assms by auto

lemma elementSiblings_heading:
  "isHeading b \<Longrightarrow> \<exists>more. elementSiblings q k (b # ns) = (q @ [k], b) # more"
  by (cases b) simp_all

lemma find_SomeD: "List.find P xs = Some x \<Longrightarrow> x \<in> set xs \<and> P x"
  by (induction xs) (auto split: if_splits)

subsection \<open>The section of a heading that lies flat\<close>

lemma sectionAt_flat:
  fixes before :: "node list"
  assumes tag: "isHeadingTag tag"
    and plain: "list_all (\<lambda>n. \<not> isHeading n) body"
    and deeper: "list_all (\<lambda>n. \<not> (isHeading n \<and> levelOf n \<le> levelOf (Element tag children)))
                   (documentOrder body)"
    and ends: "sectionEnds frames rest (levelOf (Element tag children))"
  defines "doc \<equiv> plug frames (before @ [Element tag children] @ body @ rest)"
    and "i \<equiv> frameHeadings frames + headingCount before"
  shows "i < length (selectHeadings [] 0 doc)"
    and "sectionAt (selectHeadings [] 0 doc) i =
      \<lparr> sec_id = js ''section-'' @ decimal i,
        sec_title = trim (text_of (Element tag children)),
        sec_level = levelOf (Element tag children),
        sec_start = 0, sec_end = 0,
        sec_content = trim (trim (text_of (Element tag children)) @ js ''\<newline>\<newline>''
                            @ concat (map lineOf body)) \<rparr>"
proof -
  let ?h = "Element tag children"
  let ?n = "length before"
  let ?m = "Suc ?n + length body"
  let ?level = "\<lambda>e :: located \<times> located list. levelOf (snd (fst e)) \<le> levelOf ?h"
  from selectHeadings_plug [of "[]" frames "before @ [?h] @ body @ rest"] obtain A B q
    where plug: "selectHeadings [] 0 doc = A @ selectHeadings q 0 (before @ ?h # body @ rest) @ B"
      and lenA: "length A = frameHeadings frames"
      and B: "\<forall>e \<in> set B. \<forall>j. fst (fst e) \<noteq> q @ [j]"
    unfolding doc_def by auto
  from selectHeadings_append_length [of q 0 before "?h # body @ rest"] obtain hs
    where left: "selectHeadings q 0 (before @ ?h # body @ rest)
                   = hs @ selectHeadings q ?n (?h # body @ rest)"
      and lenhs: "length hs = headingCount before"
    by auto
  from selectHeadings_append [of q "Suc ?n" body rest] obtain inside
    where right: "selectHeadings q (Suc ?n) (body @ rest) = inside @ selectHeadings q ?m rest"
      and inside: "map fst inside = map fst (selectHeadings q (Suc ?n) body)"
    by auto
  let ?siblings = "elementSiblings q (Suc ?n) body @ elementSiblings q ?m rest"
  let ?nested = "selectHeadings (q @ [?n]) 0 children"
  let ?later = "?nested @ inside @ selectHeadings q ?m rest @ B"
  have own: "selectHeadings q ?n (?h # body @ rest)
      = ((q @ [?n], ?h), ?siblings) # ?nested @ inside @ selectHeadings q ?m rest"
    using tag right by (simp add: elementSiblings_append)
  have headings: "selectHeadings [] 0 doc = (A @ hs) @ ((q @ [?n], ?h), ?siblings) # ?later"
    unfolding plug left own by simp
  have i: "i = length (A @ hs)"
    by (simp add: i_def lenA lenhs)
  show "i < length (selectHeadings [] 0 doc)"
    unfolding headings i by simp
  have entry: "selectHeadings [] 0 doc ! i = ((q @ [?n], ?h), ?siblings)"
    unfolding headings i by (simp only: nth_append_length)
  have later: "drop (Suc i) (selectHeadings [] 0 doc) = ?later"
    unfolding headings i by simp
  define boundary where "boundary = findNextHeading (selectHeadings [] 0 doc) i"
  have boundary: "boundary = map_option fst (List.find ?level ?later)"
    by (simp add: boundary_def findNextHeading_def entry later)
  have elsewhere: "fst (fst e) \<noteq> q @ [j]" if e: "e \<in> set ?later" "?level e" and j: "j < ?m" for e j
  proof -
    from e(1) consider "e \<in> set ?nested" | "e \<in> set inside"
      | "e \<in> set (selectHeadings q ?m rest)" | "e \<in> set B"
      by auto
    then show ?thesis
    proof cases
      case 1
      from selectHeadings_positions [OF this] obtain j' x
        where "fst (fst e) = (q @ [?n]) @ j' # x" by blast
      then show ?thesis by simp
    next
      case 2
      then have "fst e \<in> set (map fst (selectHeadings q (Suc ?n) body))"
        unfolding inside [symmetric] by simp
      then obtain e' where e': "e' \<in> set (selectHeadings q (Suc ?n) body)" "fst e' = fst e"
        by auto
      from selectHeadings_nodes [OF e'(1)] e'(2)
      have "isHeading (snd (fst e))" "snd (fst e) \<in> set (documentOrder body)" by simp_all
      with deeper have "\<not> levelOf (snd (fst e)) \<le> levelOf ?h"
        by (auto simp: list_all_iff)
      with e(2) show ?thesis by simp
    next
      case 3
      from selectHeadings_positions [OF this] obtain j' x
        where "fst (fst e) = q @ j' # x" "?m \<le> j'" by blast
      with j show ?thesis by auto
    next
      case 4
      with B show ?thesis by blast
    qed
  qed
  have apart: "\<not> isNode (q @ [j], nd) boundary" if j: "j < ?m" for j nd
  proof (cases "List.find ?level ?later")
    case None
    then show ?thesis by (simp add: boundary isNode_def)
  next
    case (Some e)
    from find_SomeD [OF this] elsewhere [of e j] j have "fst (fst e) \<noteq> q @ [j]" by blast
    with Some show ?thesis by (auto simp: boundary isNode_def)
  qed
  have plain': "\<forall>n \<in> set body. \<not> isHeading n"
    using plain by (simp add: list_all_iff)
  have stop: "elementSiblings q ?m rest = []
      \<or> (\<exists>pos b more. elementSiblings q ?m rest = (pos, b) # more \<and> isHeading b)"
  proof (cases rest)
    case Nil
    then show ?thesis by simp
  next
    case (Cons b rest')
    with ends have "isHeading b" by (simp add: sectionEnds_def)
    with elementSiblings_heading [OF this, of q ?m rest'] Cons show ?thesis by auto
  qed
  have "collectContent boundary ?siblings acc = acc @ concat (map lineOf body)" for acc
    using collectContent_body [OF plain', of "Suc ?n" q boundary "elementSiblings q ?m rest" acc] apart
      collectContent_stops [OF stop]
    by simp
  then show "sectionAt (selectHeadings [] 0 doc) i =
      \<lparr> sec_id = js ''section-'' @ decimal i,
        sec_title = trim (text_of ?h),
        sec_level = levelOf ?h,
        sec_start = 0, sec_end = 0,
        sec_content = trim (trim (text_of ?h) @ js ''\<newline>\<newline>'' @ concat (map lineOf body)) \<rparr>"
    by (simp add: sectionAt_def Let_def entry boundary_def [symmetric] del: text_of.simps)
qed

lemma extractSections_nth:
  "i < length (selectHeadings [] 0 nodes) \<Longrightarrow>
     extractSections nodes ! i = sectionAt (selectHeadings [] 0 nodes) i"
  by (simp add: extractSections_def Let_def)

text \<open>
  Claim C2, as stated, at six inputs; each line gives the content of the first section
  and the text strictly between its heading and the next heading at the same or a
  shallower level, or the end of the document.
  \<^item> \<^verbatim>\<open><h1>Intro</h1><p>Body</p>\<close>: the content begins with the heading's own title.
  \<^item> \<^verbatim>\<open><h1>A</h1><p>x</p><p>y</p>\<close>: the text of each element is put on a line of its own.
  \<^item> \<^verbatim>\<open><h1>A</h1><p>x</p><h2>B</h2><p>y</p>\<close>: the content ends before the deeper heading.
  \<^item> \<^verbatim>\<open><h2>A</h2><div><h2>B</h2><p>in</p></div><p>z</p>\<close>: the content runs past the next
    heading, which is not a sibling.
  \<^item> \<^verbatim>\<open><div><h1>A</h1><p>x</p></div><p>y</p>\<close>: the content ends with the siblings of
    the heading, before the end of the document.
  \<^item> \<^verbatim>\<open><h1>A</h1>bare<p>x</p>\<close>: text that is not inside an element is left out.
\<close>

theorem section_content_counterexample:
  "sec_content (extractSections
       [Element (js ''h1'') [TextNode (js ''Intro'')], Element (js ''p'') [TextNode (js ''Body'')]] ! 0)
     = js ''Intro\<newline>\<newline>Body''
   \<and> textStrictlyBetween
       [Element (js ''h1'') [TextNode (js ''Intro'')], Element (js ''p'') [TextNode (js ''Body'')]] 0
     = js ''Body''
   \<and> sec_content (extractSections
       [Element (js ''h1'') [TextNode (js ''A'')], Element (js ''p'') [TextNode (js ''x'')],
        Element (js ''p'') [TextNode (js ''y'')]] ! 0)
     = js ''A\<newline>\<newline>x\<newline>y''
   \<and> textStrictlyBetween
       [Element (js ''h1'') [TextNode (js ''A'')], Element (js ''p'') [TextNode (js ''x'')],
        Element (js ''p'') [TextNode (js ''y'')]] 0
     = js ''xy''
   \<and> sec_content (extractSections
       [Element (js ''h1'') [TextNode (js ''A'')], Element (js ''p'') [TextNode (js ''x'')],
        Element (js ''h2'') [TextNode (js ''B'')], Element (js ''p'') [TextNode (js ''y'')]] ! 0)
     = js ''A\<newline>\<newline>x''
   \<and> textStrictlyBetween
       [Element (js ''h1'') [TextNode (js ''A'')], Element (js ''p'') [TextNode (js ''x'')],
        Element (js ''h2'') [TextNode (js ''B'')], Element (js ''p'') [TextNode (js ''y'')]] 0
     = js ''xBy''
   \<and> sec_content (extractSections
       [Element (js ''h2'') [TextNode (js ''A'')],
        Element (js ''div'') [Element (js ''h2'') [TextNode (js ''B'')],
                              Element (js ''p'') [TextNode (js ''in'')]],
        Element (js ''p'') [TextNode (js ''z'')]] ! 0)
     = js ''A\<newline>\<newline>Bin\<newline>z''
   \<and> textStrictlyBetween
       [Element (js ''h2'') [TextNode (js ''A'')],
        Element (js ''div'') [Element (js ''h2'') [TextNode (js ''B'')],
                              Element (js ''p'') [TextNode (js ''in'')]],
        Element (js ''p'') [TextNode (js ''z'')]] 0
     = []
   \<and> sec_content (extractSections
       [Element (js ''div'') [Element (js ''h1'') [TextNode (js ''A'')],
                              Element (js ''p'') [TextNode (js ''x'')]],
        Element (js ''p'') [TextNode (js ''y'')]] ! 0)
     = js ''A\<newline>\<newline>x''
   \<and> textStrictlyBetween
       [Element (js ''div'') [Element (js ''h1'') [TextNode (js ''A'')],
                              Element (js ''p'') [TextNode (js ''x'')]],
        Element (js ''p'') [TextNode (js ''y'')]] 0
     = js ''xy''
   \<and> sec_content (extractSections
       [Element (js ''h1'') [TextNode (js ''A'')], TextNode (js ''bare''),
        Element (js ''p'') [TextNode (js ''x'')]] ! 0)
     = js ''A\<newline>\<newline>x''
   \<and> textStrictlyBetween
       [Element (js ''h1'') [TextNode (js ''A'')], TextNode (js ''bare''),
        Element (js ''p'') [TextNode (js ''x'')]] 0
     = js ''barex''"
  by (simp add: extractSections_nth sectionAt_def textStrictlyBetween_def findNextHeading_def
      isNode_def isHeadingTag_def levelOf_def trim_def trimStart_def isWhiteSpace_def js_def Let_def)

text \<open>
  Claim C2, amended: for every markup input and every heading \<open>i\<close> at level \<open>L\<close> such that
  what lies strictly between heading \<open>i\<close> and the next heading at a level less than or
  equal to \<open>L\<close> (or the end of the document if there is none) is a run of following
  siblings of heading \<open>i\<close> with all they contain, none of these siblings a heading and
  every text node among them white space only, the content of the section for heading
  \<open>i\<close> is the heading's own title text, an empty line, and the text strictly between
  heading \<open>i\<close> and that next heading (or the end of the document), with the text of each
  of those sibling elements trimmed and put on a line of its own, the whole trimmed.
  The title is part of the content.

  In the statement the markup is \<open>plug frames (before @ [heading] @ body @ rest)\<close>: the
  heading, the run \<open>body\<close>, and then the next heading, at the head of \<open>rest\<close> or of what
  follows the siblings, or nothing up to the end of the document. Heading \<open>i\<close> is the
  one after all the headings that precede it. The last conjunct says that the lines are
  the text strictly between, white space apart.
\<close>

theorem section_content_between:
  fixes before :: "node list"
  assumes "isHeadingTag tag"
    and "list_all (\<lambda>n. \<not> isHeading n) body"
    and "list_all (\<lambda>n. \<not> (isHeading n \<and> levelOf n \<le> levelOf (Element tag children)))
           (documentOrder body)"
    and "list_all blankText body"
    and "sectionEnds frames rest (levelOf (Element tag children))"
    and "doc = plug frames (before @ [Element tag children] @ body @ rest)"
    and "i = headingCount (plug (map cutRight frames) before)"
  shows "i < length (extractSections doc)
       \<and> sec_title (extractSections doc ! i) = trim (text_of (Element tag children))
       \<and> sec_content (extractSections doc ! i)
           = trim (sec_title (extractSections doc ! i) @ js ''\<newline>\<newline>''
                   @ concat (map lineOf body))
       \<and> filter (\<lambda>c. \<not> isWhiteSpace c) (concat (map lineOf body))
           = filter (\<lambda>c. \<not> isWhiteSpace c) (textStrictlyBetween doc i)"
proof -
  have i: "i = frameHeadings frames + headingCount before"
    using assms(7) by (simp add: headingCount_cut)
  note flat = sectionAt_flat [OF assms(1,2,3,5), of before, folded assms(6) i]
  have len: "i < length (extractSections doc)"
    using flat(1) by (simp add: extractSections_def Let_def)
  have nth: "extractSections doc ! i = sectionAt (selectHeadings [] 0 doc) i"
    using flat(1) by (rule extractSections_nth)
  have between: "textStrictlyBetween doc i = concat (map text_of body)"
    unfolding assms(6) i by (rule textStrictlyBetween_flat [OF assms(1,3,5)])
  from len show ?thesis
    by (simp add: nth flat(2) between filter_lines [OF assms(4)] del: text_of.simps)
qed

theorem section_content_between_witness:
  "isHeadingTag (js ''h2'')
   \<and> list_all (\<lambda>n. \<not> isHeading n)
       [TextNode (js ''\<newline>''), Element (js ''p'') [TextNode (js '' Body '')],
        Element (js ''div'') [Element (js ''h3'') [TextNode (js ''Note'')]]]
   \<and> list_all (\<lambda>n. \<not> (isHeading n
           \<and> levelOf n \<le> levelOf (Element (js ''h2'') [TextNode (js ''Intro'')])))
       (documentOrder
          [TextNode (js ''\<newline>''), Element (js ''p'') [TextNode (js '' Body '')],
           Element (js ''div'') [Element (js ''h3'') [TextNode (js ''Note'')]]])
   \<and> list_all blankText
       [TextNode (js ''\<newline>''), Element (js ''p'') [TextNode (js '' Body '')],
        Element (js ''div'') [Element (js ''h3'') [TextNode (js ''Note'')]]]
   \<and> sectionEnds
       [([], js ''html'', []),
        ([Element (js ''head'') []], js ''body'', []),
        ([Element (js ''h1'') [TextNode (js ''Top'')]], js ''div'',
         [Element (js ''h2'') [TextNode (js ''Next'')], Element (js ''p'') [TextNode (js ''More'')]])]
       [] (levelOf (Element (js ''h2'') [TextNode (js ''Intro'')]))
   \<and> [Element (js ''html'')
        [Element (js ''head'') [],
         Element (js ''body'')
           [Element (js ''h1'') [TextNode (js ''Top'')],
            Element (js ''div'')
              [Element (js ''h2'') [TextNode (js ''Intro'')], TextNode (js ''\<newline>''),
               Element (js ''p'') [TextNode (js '' Body '')],
               Element (js ''div'') [Element (js ''h3'') [TextNode (js ''Note'')]]],
            Element (js ''h2'') [TextNode (js ''Next'')], Element (js ''p'') [TextNode (js ''More'')]]]]
     = plug
         [([], js ''html'', []),
          ([Element (js ''head'') []], js ''body'', []),
          ([Element (js ''h1'') [TextNode (js ''Top'')]], js ''div'',
           [Element (js ''h2'') [TextNode (js ''Next'')], Element (js ''p'') [TextNode (js ''More'')]])]
         ([] @ [Element (js ''h2'') [TextNode (js ''Intro'')]]
          @ [TextNode (js ''\<newline>''), Element (js ''p'') [TextNode (js '' Body '')],
             Element (js ''div'') [Element (js ''h3'') [TextNode (js ''Note'')]]]
          @ [])
   \<and> 1 = headingCount
       (plug (map cutRight
          [([], js ''html'', []),
           ([Element (js ''head'') []], js ''body'', []),
           ([Element (js ''h1'') [TextNode (js ''Top'')]], js ''div'',
            [Element (js ''h2'') [TextNode (js ''Next'')], Element (js ''p'') [TextNode (js ''More'')]])])
         [])
   \<and> sec_content (extractSections
       [Element (js ''html'')
        [Element (js ''head'') [],
         Element (js ''body'')
           [Element (js ''h1'') [TextNode (js ''Top'')],
            Element (js ''div'')
              [Element (js ''h2'') [TextNode (js ''Intro'')], TextNode (js ''\<newline>''),
               Element (js ''p'') [TextNode (js '' Body '')],
               Element (js ''div'') [Element (js ''h3'') [TextNode (js ''Note'')]]],
            Element (js ''h2'') [TextNode (js ''Next'')], Element (js ''p'') [TextNode (js ''More'')]]]]
       ! 1)
     = js ''Intro\<newline>\<newline>Body\<newline>Note''
   \<and> textStrictlyBetween
       [Element (js ''html'')
        [Element (js ''head'') [],
         Element (js ''body'')
           [Element (js ''h1'') [TextNode (js ''Top'')],
            Element (js ''div'')
              [Element (js ''h2'') [TextNode (js ''Intro'')], TextNode (js ''\<newline>''),
               Element (js ''p'') [TextNode (js '' Body '')],
               Element (js ''div'') [Element (js ''h3'') [TextNode (js ''Note'')]]],
            Element (js ''h2'') [TextNode (js ''Next'')], Element (js ''p'') [TextNode (js ''More'')]]]]
       1
     = js ''\<newline> Body Note''"
proof -
  let ?frames = "[([], js ''html'', []),
        ([Element (js ''head'') []], js ''body'', []),
        ([Element (js ''h1'') [TextNode (js ''Top'')]], js ''div'',
         [Element (js ''h2'') [TextNode (js ''Next'')], Element (js ''p'') [TextNode (js ''More'')]])]"
  let ?body = "[TextNode (js ''\<newline>''), Element (js ''p'') [TextNode (js '' Body '')],
        Element (js ''div'') [Element (js ''h3'') [TextNode (js ''Note'')]]]"
  let ?doc = "[Element (js ''html'')
        [Element (js ''head'') [],
         Element (js ''body'')
           [Element (js ''h1'') [TextNode (js ''Top'')],
            Element (js ''div'')
              [Element (js ''h2'') [TextNode (js ''Intro'')], TextNode (js ''\<newline>''),
               Element (js ''p'') [TextNode (js '' Body '')],
               Element (js ''div'') [Element (js ''h3'') [TextNode (js ''Note'')]]],
            Element (js ''h2'') [TextNode (js ''Next'')], Element (js ''p'') [TextNode (js ''More'')]]]]"
  have h1: "isHeadingTag (js ''h2'')"
    by (simp add: isHeadingTag_def)
  have h2: "list_all (\<lambda>n. \<not> isHeading n) ?body"
    by (simp add: isHeadingTag_def js_def)
  have h3: "list_all (\<lambda>n. \<not> (isHeading n
           \<and> levelOf n \<le> levelOf (Element (js ''h2'') [TextNode (js ''Intro'')])))
       (documentOrder ?body)"
    by (simp add: isHeadingTag_def levelOf_def js_def)
  have h4: "list_all blankText ?body"
    by (simp add: js_def isWhiteSpace_def)
  have h5: "sectionEnds ?frames [] (levelOf (Element (js ''h2'') [TextNode (js ''Intro'')]))"
    by (simp add: sectionEnds_def isHeadingTag_def levelOf_def js_def)
  have h6: "?doc = plug ?frames ([] @ [Element (js ''h2'') [TextNode (js ''Intro'')]] @ ?body @ [])"
    by simp
  have h7: "1 = headingCount (plug (map cutRight ?frames) [])"
    by (simp add: headingCount_def isHeadingTag_def js_def)
  have lines: "trim (trim (text_of (Element (js ''h2'') [TextNode (js ''Intro'')]))
      @ js ''\<newline>\<newline>'' @ concat (map lineOf ?body))
        = js ''Intro\<newline>\<newline>Body\<newline>Note''"
    by (simp add: trim_def trimStart_def isWhiteSpace_def js_def)
  have between: "textStrictlyBetween ?doc 1 = js ''\<newline> Body Note''"
    by (simp add: textStrictlyBetween_def isHeadingTag_def levelOf_def js_def)
  from section_content_between [OF h1 h2 h3 h4 h5 h6 h7] lines
  have "sec_content (extractSections ?doc ! 1) = js ''Intro\<newline>\<newline>Body\<newline>Note''"
    by simp
  with h1 h2 h3 h4 h5 h6 h7 between show ?thesis
    by blast
qed

end
